theory Spec2Isabelle
  imports Main "HOL-Library.Word" "HOL-Library.Signed_Division"
begin

unbundle bit_operations_syntax

section \<open>sampler/sampler.go\<close>

text \<open>
  \<^verbatim>\<open>type LogSampler struct { processor Sampler; rate int; counter int64 }\<close>.
  \<open>rate\<close> is a Go \<open>int\<close> (64 bits on the supported platforms) and \<open>counter\<close> an
  \<open>int64\<close>; both are read as two's complement with \<open>sint\<close>. The processor is kept
  apart from the record, as the list of events it has received.
\<close>

record LogSampler =
  rate :: "64 word"
  counter :: "64 word"

definition NewSampler :: "64 word \<Rightarrow> LogSampler" where
  "NewSampler r = \<lparr>rate = r, counter = 0\<rparr>"

text \<open>
  \<^verbatim>\<open>atomic.AddInt64(&ls.counter, 1)\<close> wraps around; Go's \<open>%\<close> truncates towards zero,
  which is \<open>smod\<close> on the signed readings.
\<close>

definition ShouldLog :: "LogSampler \<Rightarrow> bool \<times> LogSampler" where
  "ShouldLog ls =
     (if sint (rate ls) \<le> 1 then (True, ls)
      else let c = counter ls + 1
           in (sint c smod sint (rate ls) = 0, ls\<lparr>counter := c\<rparr>))"

text \<open>
  \<^verbatim>\<open>func (ls *LogSampler) Log(ctx, level, msg, fields)\<close>: the event \<open>ev\<close> stands for the
  four arguments, \<open>proc\<close> for the calls the wrapped processor has received so far.
\<close>

definition Log :: "LogSampler \<times> 'e list \<Rightarrow> 'e \<Rightarrow> LogSampler \<times> 'e list" where
  "Log s ev =
     (case ShouldLog (fst s) of
        (ok, ls') \<Rightarrow> if ok then (ls', snd s @ [ev]) else (ls', snd s))"

text \<open>The sampler after \<open>n\<close> calls of \<open>ShouldLog\<close>, and the answer of the \<open>k\<close>-th call
  (counting from 1) on a fresh sampler of rate \<open>r\<close>.\<close>

fun after_calls :: "nat \<Rightarrow> LogSampler \<Rightarrow> LogSampler" where
  "after_calls 0 ls = ls"
| "after_calls (Suc n) ls = after_calls n (snd (ShouldLog ls))"

definition kth_call :: "64 word \<Rightarrow> nat \<Rightarrow> bool" where
  "kth_call r k = fst (ShouldLog (after_calls (k - 1) (NewSampler r)))"

section \<open>hook/external\_hook.go\<close>

text \<open>
  \<open>maxRetries\<close> and the loop counter are Go \<open>int\<close>s that are only compared, set to a
  constant and incremented below \<open>maxRetries\<close>, so they are modelled as \<open>int\<close>.
  \<open>time.Duration\<close> is an \<open>int64\<close> of nanoseconds.
\<close>

type_synonym Duration = "64 word"

definition Millisecond :: Duration where "Millisecond = 1000000"
definition Second :: Duration where "Second = 1000 * Millisecond"

record http_Client =
  Timeout :: Duration

record ExternalHook =
  endpoint :: string
  client :: http_Client
  maxRetries :: int
  timeout :: Duration

datatype hook_error =
    EndpointEmpty
  | MarshalFailed string
  | CreateRequestFailed string
  | AttemptSendFailed int string
  | AttemptStatus int int
  | SendFailedAfter int "hook_error option"

text \<open>The Go function returns a pair \<open>(*ExternalHook, error)\<close>; \<open>None\<close> is \<open>nil\<close>.\<close>

definition NewExternalHook ::
  "string \<Rightarrow> int \<Rightarrow> Duration \<Rightarrow> ExternalHook option \<times> hook_error option" where
  "NewExternalHook ep mr t =
     (if ep = [] then (None, Some EndpointEmpty)
      else let mr' = (if mr \<le> 0 then 3 else mr);
               t' = (if sint t \<le> 0 then 10 * Second else t)
           in (Some \<lparr>endpoint = ep, client = \<lparr>Timeout = t'\<rparr>, maxRetries = mr', timeout = t'\<rparr>,
               None))"

section \<open>Bytes, decimal text and dynamically typed values\<close>

text \<open>
  Go strings and byte slices are both sequences of bytes: \<open>string\<close>. A
  \<open>bytes.Buffer\<close> is the sequence written so far; every write appends.
\<close>

abbreviation DQ :: char where "DQ \<equiv> CHR 0x22"
abbreviation BSL :: char where "BSL \<equiv> CHR 0x5C"

text \<open>\<^verbatim>\<open>strconv.AppendUint(dst, n, 10)\<close> and \<^verbatim>\<open>strconv.AppendInt(dst, i, 10)\<close>.\<close>

fun utoa :: "nat \<Rightarrow> string" where
  "utoa n = (if n < 10 then [''0123456789'' ! n]
             else utoa (n div 10) @ [''0123456789'' ! (n mod 10)])"

declare utoa.simps [simp del]

definition itoa :: "int \<Rightarrow> string" where
  "itoa i = (if i < 0 then CHR ''-'' # utoa (nat (- i)) else utoa (nat i))"

definition AppendInt :: "string \<Rightarrow> int \<Rightarrow> string" where
  "AppendInt dst i = dst @ itoa i"

definition AppendUint :: "string \<Rightarrow> nat \<Rightarrow> string" where
  "AppendUint dst n = dst @ utoa n"

definition AppendBool :: "string \<Rightarrow> bool \<Rightarrow> string" where
  "AppendBool dst b = dst @ (if b then ''true'' else ''false'')"

text \<open>
  A Go \<open>error\<close> value: the text of \<open>Error()\<close> and, when the error also implements
  \<open>core.ErrorAppender\<close>, the bytes that \<open>AppendError\<close> appends.
\<close>

datatype goerror = GoError (err_Error: string) (err_AppendError: "string option")

text \<open>
  The dynamic types an \<^verbatim>\<open>interface{}\<close> field value is switched on. \<open>'f\<close> stands for
  IEEE floating point numbers, which are only handed to \<open>strconv\<close>; a \<open>float32\<close> is
  carried as its \<open>float64\<close> conversion. \<open>VOther\<close> is any type that no switch names.
\<close>

datatype 'f gvalue =
    VString string
  | VBytes string
  | VInt "64 word"
  | VInt8 "8 word"
  | VInt16 "16 word"
  | VInt32 "32 word"
  | VInt64 "64 word"
  | VUint "64 word"
  | VUint8 "8 word"
  | VUint16 "16 word"
  | VUint32 "32 word"
  | VUint64 "64 word"
  | VFloat32 'f
  | VFloat64 'f
  | VBool bool
  | VError goerror
  | VNil
  | VOther

text \<open>
  Library and \<open>core\<close> functions whose code is outside the repository's sources are
  parameters: \<^verbatim>\<open>t.AppendFormat(nil, layout)\<close>, \<^verbatim>\<open>strconv.FormatFloat(v, fmt, prec, bits)\<close>,
  \<^verbatim>\<open>level.Bytes()\<close>, and \<^verbatim>\<open>unicode.IsSpace\<close> of the first rune of a string.
\<close>

text \<open>
  Modelled from the spec: \<open>core.Level\<close> is declared outside the sources. The spec's
  severities are the ordered enumeration \<open>TRACE\<close>, \<open>DEBUG\<close>, \<open>INFO\<close>, \<open>NOTICE\<close>, \<open>WARN\<close>,
  \<open>ERROR\<close>, \<open>FATAL\<close>, \<open>PANIC\<close>.
\<close>

datatype Level = TRACE | DEBUG | INFO | NOTICE | WARN | ERROR | FATAL | PANIC

record ('t, 'f) stdlib =
  time_AppendFormat :: "'t \<Rightarrow> string \<Rightarrow> string"
  strconv_FormatFloat :: "'f \<Rightarrow> char \<Rightarrow> int \<Rightarrow> nat \<Rightarrow> string"
  Level_Bytes :: "Level \<Rightarrow> string"
  first_rune_IsSpace :: "string \<Rightarrow> bool"

section \<open>util/format.go\<close>

fun convertValueToString :: "('t, 'f) stdlib \<Rightarrow> 'f gvalue \<Rightarrow> string" where
  "convertValueToString sl (VString v) = v"
| "convertValueToString sl (VBytes v) = v"
| "convertValueToString sl (VInt v) = itoa (sint v)"
| "convertValueToString sl (VInt8 v) = itoa (sint v)"
| "convertValueToString sl (VInt16 v) = itoa (sint v)"
| "convertValueToString sl (VInt32 v) = itoa (sint v)"
| "convertValueToString sl (VInt64 v) = itoa (sint v)"
| "convertValueToString sl (VUint v) = utoa (unat v)"
| "convertValueToString sl (VUint8 v) = utoa (unat v)"
| "convertValueToString sl (VUint16 v) = utoa (unat v)"
| "convertValueToString sl (VUint32 v) = utoa (unat v)"
| "convertValueToString sl (VUint64 v) = utoa (unat v)"
| "convertValueToString sl (VFloat32 v) = strconv_FormatFloat sl v CHR ''g'' (- 1) 32"
| "convertValueToString sl (VFloat64 v) = strconv_FormatFloat sl v CHR ''g'' (- 1) 64"
| "convertValueToString sl (VBool v) = (if v then ''true'' else ''false'')"
| "convertValueToString sl VNil = ''null''"
| "convertValueToString sl (VError e) = ''<complex-type>''"
| "convertValueToString sl VOther = ''<complex-type>''"

text \<open>
  The type switch of \<open>FormatValue\<close>: \<open>Inr content\<close> when the switch leaves a content to
  write, \<open>Inl buf'\<close> when the \<open>ErrorAppender\<close> case has appended to the buffer and
  returned. The numeric cases append to \<^verbatim>\<open>tempBuf[:0]\<close>, the empty prefix of the pooled
  slice.
\<close>

fun FormatValue_switch ::
  "('t, 'f) stdlib \<Rightarrow> string \<Rightarrow> 'f gvalue \<Rightarrow> string + string" where
  "FormatValue_switch sl buf (VString v) = Inr v"
| "FormatValue_switch sl buf (VBytes v) = Inr v"
| "FormatValue_switch sl buf (VInt v) = Inr (AppendInt [] (sint v))"
| "FormatValue_switch sl buf (VInt8 v) = Inr (AppendInt [] (sint v))"
| "FormatValue_switch sl buf (VInt16 v) = Inr (AppendInt [] (sint v))"
| "FormatValue_switch sl buf (VInt32 v) = Inr (AppendInt [] (sint v))"
| "FormatValue_switch sl buf (VInt64 v) = Inr (AppendInt [] (sint v))"
| "FormatValue_switch sl buf (VUint v) = Inr (AppendUint [] (unat v))"
| "FormatValue_switch sl buf (VUint8 v) = Inr (AppendUint [] (unat v))"
| "FormatValue_switch sl buf (VUint16 v) = Inr (AppendUint [] (unat v))"
| "FormatValue_switch sl buf (VUint32 v) = Inr (AppendUint [] (unat v))"
| "FormatValue_switch sl buf (VUint64 v) = Inr (AppendUint [] (unat v))"
| "FormatValue_switch sl buf (VFloat32 v) = Inr ([] @ strconv_FormatFloat sl v CHR ''f'' 2 32)"
| "FormatValue_switch sl buf (VFloat64 v) = Inr ([] @ strconv_FormatFloat sl v CHR ''f'' 2 64)"
| "FormatValue_switch sl buf (VBool v) = Inr (AppendBool [] v)"
| "FormatValue_switch sl buf (VError e) =
     (case err_AppendError e of
        Some appended \<Rightarrow> Inl (buf @ appended)
      | None \<Rightarrow> Inr (err_Error e))"
| "FormatValue_switch sl buf v = Inr (convertValueToString sl v)"

definition FormatValue :: "('t, 'f) stdlib \<Rightarrow> string \<Rightarrow> 'f gvalue \<Rightarrow> int \<Rightarrow> string" where
  "FormatValue sl buf val maxWidth =
     (case FormatValue_switch sl buf val of
        Inl buf' \<Rightarrow> buf'
      | Inr content \<Rightarrow>
          if maxWidth > 0 \<and> int (length content) > maxWidth
          then (buf @ take (nat maxWidth) content) @ ''...''
          else if CHR '' '' \<in> set content
               then ((buf @ [DQ]) @ content) @ [DQ]
               else buf @ content)"

text \<open>The rendered bytes of a value: the content that the type switch of \<open>FormatValue\<close>
  selects, or the text that an \<open>ErrorAppender\<close> appends.\<close>

definition rendered :: "('t, 'f) stdlib \<Rightarrow> 'f gvalue \<Rightarrow> string" where
  "rendered sl val = (case FormatValue_switch sl [] val of Inl t \<Rightarrow> t | Inr c \<Rightarrow> c)"

definition is_ErrorAppender :: "'f gvalue \<Rightarrow> bool" where
  "is_ErrorAppender val = (case val of VError e \<Rightarrow> err_AppendError e \<noteq> None | _ \<Rightarrow> False)"

text \<open>
  An instance of the library parameters, for evaluating the functions on concrete inputs.
  A time is given by its RFC 3339 text and is formatted with the RFC 3339 layout or
  with the empty layout, for which Go appends nothing (the instance is used at these two
  layouts only). The only float is zero, in the formats \<open>'f'\<close> and \<open>'g'\<close>. Level names are
  upper case. A first rune is white space, as \<^verbatim>\<open>unicode.IsSpace\<close> has it, when the
  string starts with the UTF-8 encoding of one of the code points U+0009 to U+000D, U+0020,
  U+0085, U+00A0, U+1680, U+2000 to U+200A, U+2028, U+2029, U+202F, U+205F and U+3000.
\<close>

definition RFC3339 :: string where
  "RFC3339 = ''2006-01-02T15:04:05Z07:00''"

definition IsSpace_encodings :: "string list" where
  "IsSpace_encodings =
     [[CHR 0x09], [CHR 0x0A], [CHR 0x0B], [CHR 0x0C], [CHR 0x0D], [CHR 0x20],
      [CHR 0xC2, CHR 0x85], [CHR 0xC2, CHR 0xA0], [CHR 0xE1, CHR 0x9A, CHR 0x80],
      [CHR 0xE2, CHR 0x80, CHR 0x80], [CHR 0xE2, CHR 0x80, CHR 0x81],
      [CHR 0xE2, CHR 0x80, CHR 0x82], [CHR 0xE2, CHR 0x80, CHR 0x83],
      [CHR 0xE2, CHR 0x80, CHR 0x84], [CHR 0xE2, CHR 0x80, CHR 0x85],
      [CHR 0xE2, CHR 0x80, CHR 0x86], [CHR 0xE2, CHR 0x80, CHR 0x87],
      [CHR 0xE2, CHR 0x80, CHR 0x88], [CHR 0xE2, CHR 0x80, CHR 0x89],
      [CHR 0xE2, CHR 0x80, CHR 0x8A], [CHR 0xE2, CHR 0x80, CHR 0xA8],
      [CHR 0xE2, CHR 0x80, CHR 0xA9], [CHR 0xE2, CHR 0x80, CHR 0xAF],
      [CHR 0xE2, CHR 0x81, CHR 0x9F], [CHR 0xE3, CHR 0x80, CHR 0x80]]"

definition sample_stdlib :: "(string, unit) stdlib" where
  "sample_stdlib =
     \<lparr>time_AppendFormat = (\<lambda>t layout. if layout = RFC3339 then t else []),
      strconv_FormatFloat =
        (\<lambda>v fmt prec bits. if fmt = CHR ''f'' \<and> prec > 0
                            then ''0.'' @ replicate (nat prec) CHR ''0'' else ''0''),
      Level_Bytes = (\<lambda>l. case l of TRACE \<Rightarrow> ''TRACE'' | DEBUG \<Rightarrow> ''DEBUG'' | INFO \<Rightarrow> ''INFO''
                        | NOTICE \<Rightarrow> ''NOTICE'' | WARN \<Rightarrow> ''WARN'' | ERROR \<Rightarrow> ''ERROR''
                        | FATAL \<Rightarrow> ''FATAL'' | PANIC \<Rightarrow> ''PANIC''),
      first_rune_IsSpace = (\<lambda>s. \<exists>p \<in> set IsSpace_encodings. take (length p) s = p)\<rparr>"

section \<open>Log entries and pooled slices\<close>

text \<open>
  \<open>core.LogEntry\<close> is declared outside the sources; the record has the fields that the
  formatters read, at the types they use them at. \<open>PID\<close> and \<open>Line\<close> are Go
  \<open>int\<close>s, converted with \<^verbatim>\<open>int64(...)\<close> before printing. \<open>Fields\<close> is a Go map: the
  list holds its pairs in the order in which \<^verbatim>\<open>range\<close> yields them, and a lookup is
  \<open>map_of\<close>.
\<close>

record CallerInfo =
  File :: string
  Line :: "64 word"

record ('t, 'f) LogEntry =
  Timestamp :: 't
  Level :: Level
  Message :: string
  PID :: "64 word"
  GoroutineID :: string
  TraceID :: string
  SpanID :: string
  UserID :: string
  Caller :: "CallerInfo option"
  Error :: "goerror option"
  Fields :: "(string \<times> 'f gvalue) list"
  StackTrace :: string

text \<open>
  Modelled from the spec: \<open>util.GetStringSliceFromPool\<close>, \<open>util.GetBufferFromPool\<close> and
  \<open>util.GetSmallByteSliceFromPool\<close> are not among the sources. The spec has every pool
  hand out its buffers "cleared to zero-length/empty, not deallocated", so each returns
  an empty slice or buffer.
\<close>

definition GetStringSliceFromPool :: "string list" where
  "GetStringSliceFromPool = []"

definition GetBufferFromPool :: string where
  "GetBufferFromPool = []"

definition GetSmallByteSliceFromPool :: string where
  "GetSmallByteSliceFromPool = []"

section \<open>encoding/csv, as formatter/csv.go uses it\<close>

text \<open>
  \<^verbatim>\<open>csv.NewWriter(buf)\<close> sets \<open>Comma = ','\<close> and leaves \<open>UseCRLF\<close> false. \<open>Write\<close> followed
  by \<open>Flush\<close> appends one record to the buffer, or fails on an invalid delimiter before
  writing anything; a \<open>bytes.Buffer\<close> does not fail.
\<close>

abbreviation CR :: char where "CR \<equiv> CHR 0x0D"
abbreviation LF :: char where "LF \<equiv> CHR 0x0A"

record csv_Writer =
  Comma :: char
  UseCRLF :: bool

datatype csv_error = errInvalidDelim

definition csv_NewWriter :: csv_Writer where
  "csv_NewWriter = \<lparr>Comma = CHR '','', UseCRLF = False\<rparr>"

definition validDelim :: "char \<Rightarrow> bool" where
  "validDelim r = (r \<noteq> CHR 0x00 \<and> r \<noteq> DQ \<and> r \<noteq> CR \<and> r \<noteq> LF)"

definition fieldNeedsQuotes :: "('t, 'f) stdlib \<Rightarrow> csv_Writer \<Rightarrow> string \<Rightarrow> bool" where
  "fieldNeedsQuotes sl w field =
     (if field = [] then False
      else if field = [BSL, CHR ''.''] then True
      else if (\<exists>c \<in> set field. c = LF \<or> c = CR \<or> c = DQ \<or> c = Comma w) then True
      else first_rune_IsSpace sl field)"

function csv_write_quoted :: "csv_Writer \<Rightarrow> string \<Rightarrow> string \<Rightarrow> string" where
  "csv_write_quoted w out field =
     (if length field > 0 then
        let i = length (takeWhile (\<lambda>c. c \<noteq> DQ \<and> c \<noteq> CR \<and> c \<noteq> LF) field);
            out1 = out @ take i field;
            field1 = drop i field
        in if length field1 > 0 then
             let out2 =
               (if hd field1 = DQ then out1 @ [DQ, DQ]
                else if hd field1 = CR then (if \<not> UseCRLF w then out1 @ [CR] else out1)
                else if hd field1 = LF then (if UseCRLF w then out1 @ [CR, LF] else out1 @ [LF])
                else out1)
             in csv_write_quoted w out2 (drop 1 field1)
           else csv_write_quoted w out1 field1
      else out)"
  by pat_completeness auto
termination
  by (relation "measure (\<lambda>(w, out, field). length field)") auto

declare csv_write_quoted.simps [simp del]

fun csv_write_fields ::
  "('t, 'f) stdlib \<Rightarrow> csv_Writer \<Rightarrow> string \<Rightarrow> nat \<Rightarrow> string list \<Rightarrow> string" where
  "csv_write_fields sl w out n [] = out"
| "csv_write_fields sl w out n (field # rest) =
     (let out1 = (if n > 0 then out @ [Comma w] else out);
          out2 = (if \<not> fieldNeedsQuotes sl w field then out1 @ field
                  else csv_write_quoted w (out1 @ [DQ]) field @ [DQ])
      in csv_write_fields sl w out2 (Suc n) rest)"

definition csv_Write ::
  "('t, 'f) stdlib \<Rightarrow> csv_Writer \<Rightarrow> string \<Rightarrow> string list \<Rightarrow> csv_error + string" where
  "csv_Write sl w out record =
     (if \<not> validDelim (Comma w) then Inl errInvalidDelim
      else let out1 = csv_write_fields sl w out 0 record
           in Inr (if UseCRLF w then out1 @ [CR, LF] else out1 @ [LF]))"

section \<open>formatter/csv.go\<close>

text \<open>The third field is \<open>TimestampFormat\<close> in the source; the suffix keeps it apart from
  the field of the same name of \<open>JSONFormatter\<close>.\<close>

record CSVFormatter =
  IncludeHeader :: bool
  FieldOrder :: "string list"
  TimestampFormat_csv :: string

definition NewCSVFormatter :: CSVFormatter where
  "NewCSVFormatter = \<lparr>IncludeHeader = False, FieldOrder = [], TimestampFormat_csv = []\<rparr>"

definition formatField ::
  "('t, 'f) stdlib \<Rightarrow> CSVFormatter \<Rightarrow> string \<Rightarrow> string \<Rightarrow> ('t, 'f) LogEntry \<Rightarrow> string" where
  "formatField sl f valBuf field entry =
     (if field = ''timestamp'' then
        valBuf @ time_AppendFormat sl (Timestamp entry) (TimestampFormat_csv f)
      else if field = ''level'' then valBuf @ Level_Bytes sl (Level entry)
      else if field = ''message'' then valBuf @ Message entry
      else if field = ''pid'' then
        valBuf @ AppendInt GetSmallByteSliceFromPool (sint (PID entry))
      else if field = ''goroutine_id'' then valBuf @ GoroutineID entry
      else if field = ''trace_id'' then valBuf @ TraceID entry
      else if field = ''file'' then
        (case Caller entry of Some c \<Rightarrow> valBuf @ File c | None \<Rightarrow> valBuf)
      else if field = ''line'' then
        (case Caller entry of
           Some c \<Rightarrow> valBuf @ AppendInt GetSmallByteSliceFromPool (sint (Line c))
         | None \<Rightarrow> valBuf)
      else if field = ''error'' then
        (case Error entry of
           Some e \<Rightarrow>
             (case err_AppendError e of
                Some appended \<Rightarrow> valBuf @ appended
              | None \<Rightarrow> valBuf @ err_Error e)
         | None \<Rightarrow> valBuf)
      else
        (case map_of (Fields entry) field of
           Some val \<Rightarrow> FormatValue sl valBuf val 0
         | None \<Rightarrow> valBuf))"

text \<open>The loop over \<open>f.FieldOrder\<close>: \<^verbatim>\<open>valBuf.Reset()\<close>, \<open>formatField\<close>, then
  \<^verbatim>\<open>record = append(record, valBuf.String())\<close>.\<close>

fun Format_fields ::
  "('t, 'f) stdlib \<Rightarrow> CSVFormatter \<Rightarrow> ('t, 'f) LogEntry \<Rightarrow> string list \<Rightarrow> string \<Rightarrow>
   string list \<Rightarrow> string list" where
  "Format_fields sl f entry [] valBuf record = record"
| "Format_fields sl f entry (field # rest) valBuf record =
     (let valBuf1 = formatField sl f [] field entry
      in Format_fields sl f entry rest valBuf1 (record @ [valBuf1]))"

definition CSVFormatter_Format ::
  "('t, 'f) stdlib \<Rightarrow> CSVFormatter \<Rightarrow> string \<Rightarrow> ('t, 'f) LogEntry \<Rightarrow>
   string \<times> csv_error option" where
  "CSVFormatter_Format sl f buf entry =
     (let writer = csv_NewWriter;
          record = Format_fields sl f entry (FieldOrder f) GetBufferFromPool
                     GetStringSliceFromPool
      in case csv_Write sl writer buf record of
           Inl err \<Rightarrow> (buf, Some err)
         | Inr buf' \<Rightarrow> (buf', None))"

text \<open>
  The columns as the description of the formatter words them: a built-in column shows the
  entry's own attribute, any other name the entry field of that name, rendered, and
  nothing when the entry has no such field. A record is its columns, each quoted when it
  needs to be, separated by commas and ended by a line feed.
\<close>

definition builtin_columns :: "string list" where
  "builtin_columns = [''timestamp'', ''level'', ''message'', ''pid'', ''goroutine_id'',
     ''trace_id'', ''file'', ''line'', ''error'']"

definition builtin_column ::
  "('t, 'f) stdlib \<Rightarrow> CSVFormatter \<Rightarrow> ('t, 'f) LogEntry \<Rightarrow> string \<Rightarrow> string" where
  "builtin_column sl f entry name =
     (if name = ''timestamp'' then time_AppendFormat sl (Timestamp entry) (TimestampFormat_csv f)
      else if name = ''level'' then Level_Bytes sl (Level entry)
      else if name = ''message'' then Message entry
      else if name = ''pid'' then itoa (sint (PID entry))
      else if name = ''goroutine_id'' then GoroutineID entry
      else if name = ''trace_id'' then TraceID entry
      else if name = ''file'' then (case Caller entry of Some c \<Rightarrow> File c | None \<Rightarrow> [])
      else if name = ''line'' then
        (case Caller entry of Some c \<Rightarrow> itoa (sint (Line c)) | None \<Rightarrow> [])
      else (case Error entry of
              Some e \<Rightarrow> (case err_AppendError e of Some a \<Rightarrow> a | None \<Rightarrow> err_Error e)
            | None \<Rightarrow> []))"

definition csv_column ::
  "('t, 'f) stdlib \<Rightarrow> CSVFormatter \<Rightarrow> ('t, 'f) LogEntry \<Rightarrow> string \<Rightarrow> string" where
  "csv_column sl f entry name =
     (if name \<in> set builtin_columns then builtin_column sl f entry name
      else case map_of (Fields entry) name of
             Some val \<Rightarrow> FormatValue sl [] val 0
           | None \<Rightarrow> [])"

definition csv_quoted :: "string \<Rightarrow> string" where
  "csv_quoted field = [DQ] @ concat (map (\<lambda>c. if c = DQ then [DQ, DQ] else [c]) field) @ [DQ]"

definition csv_cell :: "('t, 'f) stdlib \<Rightarrow> string \<Rightarrow> string" where
  "csv_cell sl field =
     (if fieldNeedsQuotes sl csv_NewWriter field then csv_quoted field else field)"

fun join_commas :: "string list \<Rightarrow> string" where
  "join_commas [] = []"
| "join_commas [c] = c"
| "join_commas (c # cs) = c @ '','' @ join_commas cs"

definition csv_record :: "('t, 'f) stdlib \<Rightarrow> string list \<Rightarrow> string" where
  "csv_record sl columns = join_commas (map (csv_cell sl) columns) @ [LF]"

text \<open>An entry for evaluating the formatters on a concrete input.\<close>

definition sample_entry :: "(string, unit) LogEntry" where
  "sample_entry =
     \<lparr>Timestamp = ''2024-01-02T03:04:05Z'', Level = INFO, Message = ''user login'',
      PID = 42, GoroutineID = ''7'', TraceID = ''t-1'', SpanID = [], UserID = [],
      Caller = None, Error = None,
      Fields = [(''user_id'', VInt 123), (''action'', VString ''login''),
                (''password'', VString ''hunter2'')],
      StackTrace = []\<rparr>"

section \<open>formatter/json.go\<close>

text \<open>\<open>FieldKeyMap\<close> and \<open>FieldTransformers\<close> are Go maps that are only looked up.\<close>

record 'f JSONFormatter =
  PrettyPrint :: bool
  TimestampFormat :: string
  ShowCaller :: bool
  ShowGoroutine :: bool
  ShowPID :: bool
  ShowTraceInfo :: bool
  EnableStackTrace :: bool
  EnableDuration :: bool
  FieldKeyMap :: "string \<rightharpoonup> string"
  DisableHTMLEscape :: bool
  SensitiveFields :: "string list"
  MaskSensitiveData :: bool
  MaskStringValue :: string
  MaskStringBytes :: string
  FieldTransformers :: "string \<rightharpoonup> ('f gvalue \<Rightarrow> 'f gvalue)"

text \<open>\<open>escapeJSON\<close>, one byte at a time; the hexadecimal digits are those of
  \<^verbatim>\<open>'0' + h\<close> and \<^verbatim>\<open>'a' + h - 10\<close>.\<close>

definition hex_digit :: "nat \<Rightarrow> char" where
  "hex_digit h = (if h < 10 then ''0123456789'' ! h else ''abcdef'' ! (h - 10))"

definition escape_byte :: "char \<Rightarrow> string" where
  "escape_byte b =
     (if b = DQ then [BSL, DQ]
      else if b = BSL then [BSL, BSL]
      else if b = CHR 0x08 then [BSL, CHR ''b'']
      else if b = CHR 0x0C then [BSL, CHR ''f'']
      else if b = LF then [BSL, CHR ''n'']
      else if b = CR then [BSL, CHR ''r'']
      else if b = CHR 0x09 then [BSL, CHR ''t'']
      else if (of_char b :: nat) < 0x20 then
        [BSL] @ ''u00'' @ [hex_digit (of_char b div 16), hex_digit (of_char b mod 16)]
      else [b])"

fun escapeJSON :: "string \<Rightarrow> string \<Rightarrow> string" where
  "escapeJSON buf [] = buf"
| "escapeJSON buf (b # data) = escapeJSON (buf @ escape_byte b) data"

fun localManualStringConversion :: "('t, 'f) stdlib \<Rightarrow> 'f gvalue \<Rightarrow> string" where
  "localManualStringConversion sl (VString v) = v"
| "localManualStringConversion sl (VBytes v) = v"
| "localManualStringConversion sl (VInt v) = itoa (sint v)"
| "localManualStringConversion sl (VInt8 v) = itoa (sint v)"
| "localManualStringConversion sl (VInt16 v) = itoa (sint v)"
| "localManualStringConversion sl (VInt32 v) = itoa (sint v)"
| "localManualStringConversion sl (VInt64 v) = itoa (sint v)"
| "localManualStringConversion sl (VUint v) = utoa (unat v)"
| "localManualStringConversion sl (VUint8 v) = utoa (unat v)"
| "localManualStringConversion sl (VUint16 v) = utoa (unat v)"
| "localManualStringConversion sl (VUint32 v) = utoa (unat v)"
| "localManualStringConversion sl (VUint64 v) = utoa (unat v)"
| "localManualStringConversion sl (VFloat32 v) = strconv_FormatFloat sl v CHR ''g'' (- 1) 32"
| "localManualStringConversion sl (VFloat64 v) = strconv_FormatFloat sl v CHR ''g'' (- 1) 64"
| "localManualStringConversion sl (VBool v) = (if v then ''true'' else ''false'')"
| "localManualStringConversion sl VNil = ''null''"
| "localManualStringConversion sl (VError e) = ''<complex-type>''"
| "localManualStringConversion sl VOther = ''<complex-type>''"

fun formatJSONValue :: "('t, 'f) stdlib \<Rightarrow> string \<Rightarrow> 'f gvalue \<Rightarrow> string" where
  "formatJSONValue sl buf (VString val) = escapeJSON (buf @ [DQ]) val @ [DQ]"
| "formatJSONValue sl buf (VBytes val) = escapeJSON (buf @ [DQ]) val @ [DQ]"
| "formatJSONValue sl buf (VInt val) = buf @ AppendInt [] (sint val)"
| "formatJSONValue sl buf (VInt64 val) = buf @ AppendInt [] (sint val)"
| "formatJSONValue sl buf (VFloat64 val) = buf @ ([] @ strconv_FormatFloat sl val CHR ''g'' (- 1) 64)"
| "formatJSONValue sl buf (VBool val) = (if val then buf @ ''true'' else buf @ ''false'')"
| "formatJSONValue sl buf VNil = buf @ ''null''"
| "formatJSONValue sl buf val =
     escapeJSON (buf @ [DQ]) (localManualStringConversion sl val) @ [DQ]"

text \<open>The loop \<^verbatim>\<open>for k, v := range entry.Fields\<close> of \<open>formatManually\<close>.\<close>

fun formatManually_fields ::
  "('t, 'f) stdlib \<Rightarrow> string \<Rightarrow> bool \<Rightarrow> (string \<times> 'f gvalue) list \<Rightarrow> string" where
  "formatManually_fields sl buf first [] = buf"
| "formatManually_fields sl buf first ((k, v) # rest) =
     (let buf1 = (if \<not> first then buf @ '','' else buf);
          buf2 = ((buf1 @ [DQ]) @ k) @ [DQ, CHR '':''];
          buf3 = formatJSONValue sl buf2 v
      in formatManually_fields sl buf3 False rest)"

definition FormatTimestamp :: "('t, 'f) stdlib \<Rightarrow> string \<Rightarrow> 't \<Rightarrow> string \<Rightarrow> string" where
  "FormatTimestamp sl buf t format = buf @ ([] @ time_AppendFormat sl t format)"

definition formatManually ::
  "('t, 'f) stdlib \<Rightarrow> 'f JSONFormatter \<Rightarrow> string \<Rightarrow> ('t, 'f) LogEntry \<Rightarrow> string" where
  "formatManually sl f buf entry =
     (let b = buf @ ''{'';
          b = b @ [DQ] @ ''timestamp'' @ [DQ] @ '':'' @ [DQ];
          b = FormatTimestamp sl b (Timestamp entry) (TimestampFormat f);
          b = b @ [DQ] @ '','';
          b = b @ [DQ] @ ''level_name'' @ [DQ] @ '':'' @ [DQ];
          b = b @ Level_Bytes sl (Level entry);
          b = b @ [DQ] @ '','';
          b = b @ [DQ] @ ''message'' @ [DQ] @ '':'' @ [DQ];
          b = escapeJSON b (Message entry);
          b = b @ [DQ];
          b = (if ShowPID f
               then (b @ '','' @ [DQ] @ ''pid'' @ [DQ] @ '':'') @ AppendInt [] (sint (PID entry))
               else b);
          b = (case Caller entry of
                 Some c \<Rightarrow>
                   if ShowCaller f
                   then (((b @ '','' @ [DQ] @ ''caller'' @ [DQ] @ '':'' @ [DQ]) @ File c) @ '':''
                          @ AppendInt [] (sint (Line c))) @ [DQ]
                   else b
               | None \<Rightarrow> b);
          b = (if length (Fields entry) > 0
               then formatManually_fields sl (b @ '','' @ [DQ] @ ''fields'' @ [DQ] @ '':{'')
                      True (Fields entry) @ ''}''
               else b);
          b = (if ShowTraceInfo f then
                 let b1 = (if TraceID entry \<noteq> []
                           then ((b @ '','' @ [DQ] @ ''trace_id'' @ [DQ] @ '':'' @ [DQ])
                                  @ TraceID entry) @ [DQ]
                           else b);
                     b2 = (if SpanID entry \<noteq> []
                           then ((b1 @ '','' @ [DQ] @ ''span_id'' @ [DQ] @ '':'' @ [DQ])
                                  @ SpanID entry) @ [DQ]
                           else b1)
                 in (if UserID entry \<noteq> []
                     then ((b2 @ '','' @ [DQ] @ ''user_id'' @ [DQ] @ '':'' @ [DQ])
                            @ UserID entry) @ [DQ]
                     else b2)
               else b);
          b = (if EnableStackTrace f \<and> length (StackTrace entry) > 0
               then escapeJSON (b @ '','' @ [DQ] @ ''stack_trace'' @ [DQ] @ '':'' @ [DQ])
                      (StackTrace entry) @ [DQ]
               else b)
      in (b @ ''}'') @ [LF])"

text \<open>\<open>formatManuallyWithIndent\<close>: \<open>newline\<close> writes a line feed and two spaces for each
  level of \<open>indentLevel\<close>; \<open>fieldNewline\<close> keeps the level it captured, 2.\<close>

definition newline :: "string \<Rightarrow> nat \<Rightarrow> string" where
  "newline buf indentLevel = (buf @ [LF]) @ concat (replicate indentLevel ''  '')"

fun formatManuallyWithIndent_fields ::
  "('t, 'f) stdlib \<Rightarrow> string \<Rightarrow> bool \<Rightarrow> (string \<times> 'f gvalue) list \<Rightarrow> string" where
  "formatManuallyWithIndent_fields sl buf first [] = buf"
| "formatManuallyWithIndent_fields sl buf first ((k, v) # rest) =
     (let buf1 = (if \<not> first then buf @ '','' else buf);
          buf2 = newline buf1 2;
          buf3 = ((buf2 @ [DQ]) @ k) @ [DQ] @ '': '';
          buf4 = formatJSONValue sl buf3 v
      in formatManuallyWithIndent_fields sl buf4 False rest)"

definition formatManuallyWithIndent ::
  "('t, 'f) stdlib \<Rightarrow> 'f JSONFormatter \<Rightarrow> string \<Rightarrow> ('t, 'f) LogEntry \<Rightarrow> string" where
  "formatManuallyWithIndent sl f buf entry =
     (let b = buf @ ''{'';
          b = newline b 1;
          b = b @ [DQ] @ ''timestamp'' @ [DQ] @ '': '' @ [DQ];
          b = FormatTimestamp sl b (Timestamp entry) (TimestampFormat f);
          b = b @ [DQ];
          b = newline (b @ '','') 1;
          b = b @ [DQ] @ ''level_name'' @ [DQ] @ '': '' @ [DQ];
          b = b @ Level_Bytes sl (Level entry);
          b = b @ [DQ];
          b = newline (b @ '','') 1;
          b = b @ [DQ] @ ''message'' @ [DQ] @ '': '' @ [DQ];
          b = escapeJSON b (Message entry);
          b = b @ [DQ];
          b = (if ShowPID f \<and> PID entry \<noteq> 0
               then (newline (b @ '','') 1 @ [DQ] @ ''pid'' @ [DQ] @ '': '')
                      @ AppendInt [] (sint (PID entry))
               else b);
          b = (case Caller entry of
                 Some c \<Rightarrow>
                   if ShowCaller f
                   then (((newline (b @ '','') 1 @ [DQ] @ ''caller'' @ [DQ] @ '': '' @ [DQ])
                           @ File c) @ '':'' @ AppendInt [] (sint (Line c))) @ [DQ]
                   else b
               | None \<Rightarrow> b);
          b = (if length (Fields entry) > 0
               then newline
                      (formatManuallyWithIndent_fields sl
                         (newline (b @ '','') 1 @ [DQ] @ ''fields'' @ [DQ] @ '': {'')
                         True (Fields entry)) 2 @ ''}''
               else b);
          b = (if ShowTraceInfo f then
                 let b1 = (if TraceID entry \<noteq> []
                           then ((newline (b @ '','') 1 @ [DQ] @ ''trace_id'' @ [DQ] @ '': '' @ [DQ])
                                  @ TraceID entry) @ [DQ]
                           else b);
                     b2 = (if SpanID entry \<noteq> []
                           then ((newline (b1 @ '','') 1 @ [DQ] @ ''span_id'' @ [DQ] @ '': '' @ [DQ])
                                  @ SpanID entry) @ [DQ]
                           else b1)
                 in (if UserID entry \<noteq> []
                     then ((newline (b2 @ '','') 1 @ [DQ] @ ''user_id'' @ [DQ] @ '': '' @ [DQ])
                            @ UserID entry) @ [DQ]
                     else b2)
               else b);
          b = (if EnableStackTrace f \<and> length (StackTrace entry) > 0
               then escapeJSON
                      (newline (b @ '','') 1 @ [DQ] @ ''stack_trace'' @ [DQ] @ '': '' @ [DQ])
                      (StackTrace entry) @ [DQ]
               else b);
          b = newline b 0
      in (b @ ''}'') @ [LF])"

definition formatWithStandardEncoder ::
  "('t, 'f) stdlib \<Rightarrow> 'f JSONFormatter \<Rightarrow> string \<Rightarrow> ('t, 'f) LogEntry \<Rightarrow> string" where
  "formatWithStandardEncoder sl f buf entry =
     (if PrettyPrint f then formatManuallyWithIndent sl f buf entry
      else formatManually sl f buf entry)"

text \<open>\<open>Format\<close> always returns a nil error; the result is the buffer.\<close>

definition JSONFormatter_Format ::
  "('t, 'f) stdlib \<Rightarrow> 'f JSONFormatter \<Rightarrow> string \<Rightarrow> ('t, 'f) LogEntry \<Rightarrow> string" where
  "JSONFormatter_Format sl f buf entry =
     (if PrettyPrint f then formatWithStandardEncoder sl f buf entry
      else formatManually sl f buf entry)"

text \<open>\<open>isSensitive\<close> and \<open>processFields\<close>; only \<open>prepareOutputEntry\<close> calls
  \<open>processFields\<close>, and no function of the file calls \<open>prepareOutputEntry\<close>.\<close>

fun isSensitive_loop :: "string \<Rightarrow> string list \<Rightarrow> bool" where
  "isSensitive_loop field [] = False"
| "isSensitive_loop field (sensitiveField # rest) =
     (if field = sensitiveField then True else isSensitive_loop field rest)"

definition isSensitive :: "'f JSONFormatter \<Rightarrow> string \<Rightarrow> bool" where
  "isSensitive f field = isSensitive_loop field (SensitiveFields f)"

fun processFields_loop ::
  "'f JSONFormatter \<Rightarrow> (string \<rightharpoonup> 'f gvalue) \<Rightarrow> (string \<times> 'f gvalue) list \<Rightarrow>
   (string \<rightharpoonup> 'f gvalue)" where
  "processFields_loop f processed [] = processed"
| "processFields_loop f processed ((k, v) # rest) =
     (let key = (case FieldKeyMap f k of Some mappedKey \<Rightarrow> mappedKey | None \<Rightarrow> k);
          processed1 =
            (case FieldTransformers f k of
               Some transformer \<Rightarrow> processed(key \<mapsto> transformer v)
             | None \<Rightarrow>
                 if MaskSensitiveData f \<and> isSensitive f k
                 then processed(key \<mapsto> VBytes (MaskStringBytes f))
                 else processed(key \<mapsto> v))
      in processFields_loop f processed1 rest)"

definition processFields ::
  "'f JSONFormatter \<Rightarrow> (string \<times> 'f gvalue) list \<Rightarrow> (string \<rightharpoonup> 'f gvalue)" where
  "processFields f flds = processFields_loop f Map.empty flds"

definition NewJSONFormatter :: "'f JSONFormatter" where
  "NewJSONFormatter =
     \<lparr>PrettyPrint = False, TimestampFormat = [], ShowCaller = False, ShowGoroutine = False,
      ShowPID = False, ShowTraceInfo = False, EnableStackTrace = False, EnableDuration = False,
      FieldKeyMap = Map.empty, DisableHTMLEscape = False,
      SensitiveFields = [], MaskSensitiveData = False,
      MaskStringValue = [], MaskStringBytes = [],
      FieldTransformers = Map.empty\<rparr>"

text \<open>Concrete inputs: a formatter that is asked to mask two field names, an entry with one
  field whose name holds a double quote, and an entry with two plain fields.\<close>

definition masking_formatter :: "unit JSONFormatter" where
  "masking_formatter =
     NewJSONFormatter\<lparr>SensitiveFields := [''password'', ''token''], MaskSensitiveData := True,
       MaskStringValue := ''[MASKED]'', MaskStringBytes := ''[MASKED]''\<rparr>"

definition quoted_name_entry :: "(string, unit) LogEntry" where
  "quoted_name_entry =
     sample_entry\<lparr>Fields := [(''a'' @ [DQ] @ '':1,'' @ [DQ] @ ''b'', VInt 2)]\<rparr>"

definition two_fields_entry :: "(string, unit) LogEntry" where
  "two_fields_entry = sample_entry\<lparr>Fields := [(''a'', VInt 1), (''b'', VInt 2)]\<rparr>"

section \<open>ExternalHook.Fire\<close>

text \<open>
  What the network does is a parameter: \<open>net attempt\<close> is what iteration \<open>attempt\<close> of the
  retry loop meets, either \<^verbatim>\<open>http.NewRequestWithContext\<close> failing, or \<^verbatim>\<open>client.Do\<close>
  failing (a transport error or the context's deadline), or a response with a status
  code. The result of \<^verbatim>\<open>json.Marshal(entry)\<close> is a parameter as well. Beside the
  returned error, the model returns what \<open>Fire\<close> did: the requests it sent, by iteration
  and body, and the back-off sleeps.
\<close>

datatype http_outcome = NewRequestError string | DoError string | Response int

datatype fire_event = Post int string | Sleep Duration

text \<open>\<^verbatim>\<open>time.Duration(1<<uint(attempt)) * 100 * time.Millisecond\<close>, in 64-bit arithmetic.\<close>

definition backoffDuration :: "int \<Rightarrow> Duration" where
  "backoffDuration attempt = push_bit (nat attempt) (1 :: 64 word) * 100 * Millisecond"

definition backoff :: "ExternalHook \<Rightarrow> int \<Rightarrow> fire_event list" where
  "backoff h attempt =
     (if attempt < maxRetries h - 1 then [Sleep (backoffDuration attempt)] else [])"

function Fire_loop ::
  "ExternalHook \<Rightarrow> string \<Rightarrow> (int \<Rightarrow> http_outcome) \<Rightarrow> int \<Rightarrow> hook_error option \<Rightarrow>
   hook_error option \<times> fire_event list" where
  "Fire_loop h payload net attempt lastErr =
     (if attempt < maxRetries h then
        (case net attempt of
           NewRequestError err \<Rightarrow> (Some (CreateRequestFailed err), [])
         | DoError err \<Rightarrow>
             (case Fire_loop h payload net (attempt + 1)
                     (Some (AttemptSendFailed (attempt + 1) err)) of
                (res, events) \<Rightarrow> (res, Post attempt payload # backoff h attempt @ events))
         | Response StatusCode \<Rightarrow>
             if StatusCode \<ge> 200 \<and> StatusCode < 300 then (None, [Post attempt payload])
             else
               (case Fire_loop h payload net (attempt + 1)
                       (Some (AttemptStatus (attempt + 1) StatusCode)) of
                  (res, events) \<Rightarrow> (res, Post attempt payload # backoff h attempt @ events)))
      else (Some (SendFailedAfter (maxRetries h) lastErr), []))"
  by pat_completeness auto
termination
  by (relation "measure (\<lambda>(h, payload, net, attempt, lastErr). nat (maxRetries h - attempt))")
     auto

declare Fire_loop.simps [simp del]

definition Fire ::
  "ExternalHook \<Rightarrow> string + string \<Rightarrow> (int \<Rightarrow> http_outcome) \<Rightarrow>
   hook_error option \<times> fire_event list" where
  "Fire h marshalled net =
     (case marshalled of
        Inl err \<Rightarrow> (Some (MarshalFailed err), [])
      | Inr payload \<Rightarrow> Fire_loop h payload net 0 None)"

text \<open>The requests among the events, a successful outcome, and the error that a failed
  attempt leaves in \<open>lastErr\<close>.\<close>

fun is_Post :: "fire_event \<Rightarrow> bool" where
  "is_Post (Post attempt body) = True"
| "is_Post (Sleep d) = False"

definition posts :: "fire_event list \<Rightarrow> fire_event list" where
  "posts events = filter is_Post events"

fun succeeded :: "http_outcome \<Rightarrow> bool" where
  "succeeded (Response StatusCode) = (200 \<le> StatusCode \<and> StatusCode < 300)"
| "succeeded other = False"

fun attempt_failed :: "http_outcome \<Rightarrow> bool" where
  "attempt_failed (Response StatusCode) = (\<not> (200 \<le> StatusCode \<and> StatusCode < 300))"
| "attempt_failed (DoError err) = True"
| "attempt_failed (NewRequestError err) = False"

fun attempt_error :: "int \<Rightarrow> http_outcome \<Rightarrow> hook_error" where
  "attempt_error attempt (Response StatusCode) = AttemptStatus (attempt + 1) StatusCode"
| "attempt_error attempt (DoError err) = AttemptSendFailed (attempt + 1) err"
| "attempt_error attempt (NewRequestError err) = CreateRequestFailed err"

text \<open>The hook of the repository's tests: three retries and five seconds.\<close>

definition sample_hook :: ExternalHook where
  "sample_hook =
     \<lparr>endpoint = ''http://127.0.0.1:8080'', client = \<lparr>Timeout = 5 * Second\<rparr>,
      maxRetries = 3, timeout = 5 * Second\<rparr>"

section \<open>The level gate and the dispatcher\<close>

text \<open>
  Modelled from the spec: the \<open>logger\<close> package (level gate, dispatcher, worker pool and
  \<open>Close\<close>) is not among the sources; only its callers are. The definitions below follow
  the specification's sections on the level gate, the synchronous and the asynchronous
  dispatcher and shutdown.

  Severities are ordered \<open>TRACE < DEBUG < INFO < NOTICE < WARN < ERROR < FATAL < PANIC\<close>.
\<close>

fun severity :: "Level \<Rightarrow> nat" where
  "severity TRACE = 0"
| "severity DEBUG = 1"
| "severity INFO = 2"
| "severity NOTICE = 3"
| "severity WARN = 4"
| "severity ERROR = 5"
| "severity FATAL = 6"
| "severity PANIC = 7"

datatype phase = Open | Draining | Closed

text \<open>
  What an emit call does, in order. A logger holds the threshold of the gate, its mode,
  the state of the asynchronous pipeline (bounded queue, tasks that a worker has dequeued
  and not yet written, shutdown phase and whether the shutdown deadline has elapsed), and
  two histories: the tasks accepted by the queue and the records passed to the Writer.
\<close>

datatype 'a effect =
    LoadThreshold
  | PoolAcquire
  | PoolRelease
  | FormatRecord 'a
  | WriterWrite 'a
  | ErrorHandler
  | HooksFire 'a
  | Enqueue 'a
  | QueueFull

record 'a logger =
  threshold :: Level
  asyncMode :: bool
  phase :: phase
  capacity :: nat
  workers :: nat
  queue :: "'a list"
  inflight :: "'a list"
  written :: "'a list"
  accepted :: "'a list"
  deadline_elapsed :: bool

definition new_logger :: "Level \<Rightarrow> bool \<Rightarrow> nat \<Rightarrow> nat \<Rightarrow> 'a logger" where
  "new_logger minimum async c w =
     \<lparr>threshold = minimum, asyncMode = async, phase = Open, capacity = c, workers = w,
      queue = [], inflight = [], written = [], accepted = [], deadline_elapsed = False\<rparr>"

text \<open>\<open>enabled(severity)\<close> compares with the atomically stored minimum.\<close>

definition enabled :: "'a logger \<Rightarrow> Level \<Rightarrow> bool" where
  "enabled lg s = (severity (threshold lg) \<le> severity s)"

text \<open>
  \<open>emit\<close>: the gate check comes first. The synchronous path acquires a record, formats it,
  passes it to the Writer (an error goes to the error handler), fires the hooks and
  releases the record. The asynchronous path enqueues a task while the logger is open and
  the queue has room, reports a full queue and releases the record otherwise, and does
  nothing once the logger is draining or closed. \<open>writer_ok\<close> says whether the Writer
  accepts the bytes.
\<close>

definition emit :: "'a logger \<Rightarrow> Level \<Rightarrow> 'a \<Rightarrow> bool \<Rightarrow> 'a logger \<times> 'a effect list" where
  "emit lg s r writer_ok =
     (if \<not> enabled lg s then (lg, [LoadThreshold])
      else if \<not> asyncMode lg then
        (lg\<lparr>written := written lg @ [r]\<rparr>,
         [LoadThreshold, PoolAcquire, FormatRecord r, WriterWrite r]
         @ (if writer_ok then [] else [ErrorHandler]) @ [HooksFire r, PoolRelease])
      else if phase lg \<noteq> Open then (lg, [LoadThreshold])
      else if length (queue lg) < capacity lg then
        (lg\<lparr>queue := queue lg @ [r], accepted := accepted lg @ [r]\<rparr>,
         [LoadThreshold, PoolAcquire, Enqueue r])
      else (lg, [LoadThreshold, PoolAcquire, QueueFull, PoolRelease]))"

section \<open>Sampling\<close>

lemma ShouldLog_rate [simp]: "rate (snd (ShouldLog ls)) = rate ls"
  by (simp add: ShouldLog_def Let_def)

lemma after_calls_rate [simp]: "rate (after_calls n ls) = rate ls"
  by (induction n arbitrary: ls) simp_all

lemma after_calls_counter:
  "1 < sint (rate ls) \<Longrightarrow> counter (after_calls n ls) = counter ls + of_nat n"
  by (induction n arbitrary: ls) (simp_all add: ShouldLog_def Let_def)

lemma kth_call_counter:
  assumes "1 < sint r" and "1 \<le> k"
  shows "kth_call r k = (sint (of_nat k :: 64 word) smod sint r = 0)"
proof -
  let ?ls = "after_calls (k - 1) (NewSampler r)"
  have r: "rate ?ls = r" by (simp add: NewSampler_def)
  have "counter ?ls = of_nat (k - 1)"
    using assms(1) after_calls_counter [of "NewSampler r" "k - 1"]
    by (simp add: NewSampler_def)
  then have "counter ?ls + 1 = of_nat k"
    using assms(2) by (cases k) simp_all
  then show ?thesis
    using assms(1) r by (simp add: kth_call_def ShouldLog_def Let_def)
qed

lemma smod_eq_0_iff_dvd: "0 \<le> a \<Longrightarrow> 0 < b \<Longrightarrow> (a smod b = 0) = (b dvd (a::int))"
  by (simp add: smod_int_alt_def sgn_if dvd_eq_mod_eq_0)

lemma sint_of_nat_small: "k < 2 ^ 63 \<Longrightarrow> sint (of_nat k :: 64 word) = int k"
proof -
  assume k: "k < 2 ^ 63"
  have "sint (of_nat k :: 64 word) = signed_take_bit 63 (int k)"
    using sint_sbintrunc' [where 'a=64, of "int k"] by simp
  also have "\<dots> = int k"
    using k by (intro signed_take_bit_int_eq_self) auto
  finally show ?thesis by simp
qed

lemma dvd_int_nat: "1 < b \<Longrightarrow> (b dvd int k) = (nat b dvd k)"
  by (metis int_dvd_int_iff int_nat_eq less_le_not_le zero_le_one order.trans)

lemma kth_call_dvd:
  assumes "1 < sint r" and "1 \<le> k" and "k < 2 ^ 63"
  shows "kth_call r k = (nat (sint r) dvd k)"
proof -
  have "kth_call r k = (int k smod sint r = 0)"
    using assms by (simp add: kth_call_counter sint_of_nat_small)
  also have "\<dots> = (sint r dvd int k)"
    using assms(1) by (simp add: smod_eq_0_iff_dvd)
  also have "\<dots> = (nat (sint r) dvd k)"
    using assms(1) by (rule dvd_int_nat)
  finally show ?thesis .
qed

lemma multiple_in_window:
  assumes "0 < (r::nat)"
  shows "{k \<in> {n + 1 .. n + r}. r dvd k} = {(n div r + 1) * r}"
proof (rule set_eqI)
  fix k
  show "(k \<in> {k \<in> {n + 1 .. n + r}. r dvd k}) = (k \<in> {(n div r + 1) * r})"
  proof
    assume "k \<in> {k \<in> {n + 1 .. n + r}. r dvd k}"
    then obtain q where q: "k = q * r" and lo: "n < q * r" and hi: "q * r \<le> n + r"
      by (auto simp: dvd_def mult.commute)
    from lo assms have "n div r < q"
      by (simp add: div_less_iff_less_mult)
    moreover from hi have "(q - 1) * r \<le> n"
      by (simp add: diff_mult_distrib)
    then have "q - 1 \<le> n div r"
      using assms by (simp add: less_eq_div_iff_mult_less_eq)
    ultimately have "q = n div r + 1" by simp
    with q show "k \<in> {(n div r + 1) * r}" by simp
  next
    assume "k \<in> {(n div r + 1) * r}"
    then have k: "k = n div r * r + r" by simp
    have "n div r * r \<le> n" by simp
    moreover have "n < n div r * r + r"
      using assms by (metis add.commute dividend_less_times_div mult.commute)
    ultimately show "k \<in> {k \<in> {n + 1 .. n + r}. r dvd k}"
      using k by auto
  qed
qed

lemma one_in_window:
  assumes "1 < sint r" and "n + nat (sint r) < 2 ^ 63"
  shows "card {k \<in> {n + 1 .. n + nat (sint r)}. kth_call r k} = 1"
proof -
  have "{k \<in> {n + 1 .. n + nat (sint r)}. kth_call r k}
        = {k \<in> {n + 1 .. n + nat (sint r)}. nat (sint r) dvd k}"
    using assms by (auto simp: kth_call_dvd)
  also have "\<dots> = {(n div nat (sint r) + 1) * nat (sint r)}"
    using assms(1) by (intro multiple_in_window) simp
  finally show ?thesis by simp
qed

text \<open>
  C5 (amended). A sampler of rate at most 1 answers true on every call and is left
  unchanged. For a rate \<open>r > 1\<close>, the \<open>k\<close>-th call on a fresh sampler answers true exactly
  when \<open>k\<close> is a multiple of \<open>r\<close>, as long as the 64-bit counter has not wrapped
  (\<open>k < 2^63\<close>); so exactly one of any \<open>r\<close> consecutive such calls answers true.
  \<open>Log\<close> hands the event to the wrapped processor exactly when \<open>ShouldLog\<close> answers true.
\<close>

theorem LogSampler_sampling:
  "(sint r \<le> 1 \<longrightarrow> ShouldLog \<lparr>rate = r, counter = c\<rparr> = (True, \<lparr>rate = r, counter = c\<rparr>))
   \<and> (1 < sint r \<and> 1 \<le> k \<and> k < 2 ^ 63 \<longrightarrow> kth_call r k = (nat (sint r) dvd k))
   \<and> (1 < sint r \<and> n + nat (sint r) < 2 ^ 63 \<longrightarrow>
        card {k \<in> {n + 1 .. n + nat (sint r)}. kth_call r k} = 1)
   \<and> Log (ls, proc) ev
       = (snd (ShouldLog ls), if fst (ShouldLog ls) then proc @ [ev] else proc)"
proof (intro conjI impI)
  assume "sint r \<le> 1"
  then show "ShouldLog \<lparr>rate = r, counter = c\<rparr> = (True, \<lparr>rate = r, counter = c\<rparr>)"
    by (simp add: ShouldLog_def)
next
  assume "1 < sint r \<and> 1 \<le> k \<and> k < 2 ^ 63"
  then show "kth_call r k = (nat (sint r) dvd k)"
    by (simp add: kth_call_dvd)
next
  assume "1 < sint r \<and> n + nat (sint r) < 2 ^ 63"
  then show "card {k \<in> {n + 1 .. n + nat (sint r)}. kth_call r k} = 1"
    using one_in_window [of r n] by blast
next
  show "Log (ls, proc) ev
        = (snd (ShouldLog ls), if fst (ShouldLog ls) then proc @ [ev] else proc)"
    by (simp add: Log_def split: prod.splits)
qed

theorem LogSampler_sampling_witness:
  "ShouldLog \<lparr>rate = 1, counter = 5\<rparr> = (True, \<lparr>rate = 1, counter = 5\<rparr>)
   \<and> kth_call 3 6 \<and> \<not> kth_call 3 7
   \<and> card {k \<in> {5 .. 7}. kth_call 3 k} = 1"
proof -
  have a: "ShouldLog \<lparr>rate = 1, counter = 5\<rparr> = (True, \<lparr>rate = 1, counter = 5\<rparr>)"
    using LogSampler_sampling [of 1 5 0 0 "NewSampler 1" "[]" "()"] by simp
  have b: "kth_call 3 6"
    using LogSampler_sampling [of 3 0 6 0 "NewSampler 1" "[]" "()"] by simp
  have c: "\<not> kth_call 3 7"
    using LogSampler_sampling [of 3 0 7 0 "NewSampler 1" "[]" "()"] by simp
  have d: "card {k \<in> {5 .. 7}. kth_call 3 k} = 1"
    using LogSampler_sampling [of 3 0 1 4 "NewSampler 1" "[]" "()"] by simp
  from a b c d show ?thesis by simp
qed

text \<open>
  C5 as stated fails once the counter has wrapped: the \<open>(2^63 + 1)\<close>-th call on a
  sampler of rate 3 reads the counter as \<open>-(2^63 - 1)\<close>, which is not a multiple of 3,
  although \<open>2^63 + 1\<close> is.
\<close>

theorem LogSampler_wrap_counterexample:
  "\<not> (kth_call 3 9223372036854775809 = ((3::nat) dvd 9223372036854775809))"
proof -
  have "kth_call 3 9223372036854775809
        = (sint (of_nat 9223372036854775809 :: 64 word) smod sint (3 :: 64 word) = 0)"
    by (rule kth_call_counter) simp_all
  then have "\<not> kth_call 3 9223372036854775809"
    by (simp add: smod_int_alt_def)
  moreover have "(3::nat) dvd 9223372036854775809" by simp
  ultimately show ?thesis by simp
qed

section \<open>Constructing the external hook\<close>

text \<open>
  C7. \<open>NewExternalHook\<close> returns an error and no hook exactly when the endpoint is empty;
  for a non-empty endpoint it returns a hook and no error, with \<open>maxRetries = 3\<close> in
  place of a value \<open>\<le> 0\<close> and a timeout of 10 seconds in place of a value \<open>\<le> 0\<close>.
\<close>

theorem NewExternalHook_contract:
  "((fst (NewExternalHook ep mr t) = None \<and> snd (NewExternalHook ep mr t) \<noteq> None) = (ep = []))
   \<and> ((snd (NewExternalHook ep mr t) \<noteq> None) = (ep = []))
   \<and> (ep \<noteq> [] \<longrightarrow>
        NewExternalHook ep mr t
        = (Some \<lparr>endpoint = ep,
                 client = \<lparr>Timeout = (if sint t \<le> 0 then 10000000000 else t)\<rparr>,
                 maxRetries = (if mr \<le> 0 then 3 else mr),
                 timeout = (if sint t \<le> 0 then 10000000000 else t)\<rparr>, None))"
  by (simp add: NewExternalHook_def Let_def Second_def Millisecond_def)

theorem NewExternalHook_contract_witness:
  "NewExternalHook ''http://example.com/logs'' 0 0
   = (Some \<lparr>endpoint = ''http://example.com/logs'', client = \<lparr>Timeout = 10000000000\<rparr>,
            maxRetries = 3, timeout = 10000000000\<rparr>, None)
   \<and> NewExternalHook [] 3 5 = (None, Some EndpointEmpty)"
proof -
  have a: "NewExternalHook ''http://example.com/logs'' 0 0
   = (Some \<lparr>endpoint = ''http://example.com/logs'', client = \<lparr>Timeout = 10000000000\<rparr>,
            maxRetries = 3, timeout = 10000000000\<rparr>, None)"
    using NewExternalHook_contract [of "''http://example.com/logs''" 0 0] by simp
  have "fst (NewExternalHook [] 3 5) = None \<and> snd (NewExternalHook [] 3 5) \<noteq> None"
    using NewExternalHook_contract [of "[]" 3 5] by simp
  then have b: "NewExternalHook [] 3 5 = (None, Some EndpointEmpty)"
    by (simp add: NewExternalHook_def)
  from a b show ?thesis by simp
qed

section \<open>FormatValue\<close>

lemma FormatValue_switch_Inr:
  "\<not> is_ErrorAppender val \<Longrightarrow> FormatValue_switch sl buf val = Inr (rendered sl val)"
  by (cases val) (auto simp: is_ErrorAppender_def rendered_def split: option.splits)

lemma FormatValue_switch_Inl:
  "is_ErrorAppender val \<Longrightarrow> FormatValue_switch sl buf val = Inl (buf @ rendered sl val)"
  by (cases val) (auto simp: is_ErrorAppender_def rendered_def split: option.splits)

text \<open>
  C8 (amended). For every value that is not an error implementing \<open>ErrorAppender\<close> and
  every \<open>maxWidth > 0\<close>: when the rendered content is longer than \<open>maxWidth\<close>,
  \<open>FormatValue\<close> appends its first \<open>maxWidth\<close> bytes and three dots, and nothing else;
  otherwise it appends the content, in double quotes exactly when it holds a space. For an
  error implementing \<open>ErrorAppender\<close> it appends what \<open>AppendError\<close> appends, neither
  truncated nor quoted.
\<close>

theorem FormatValue_output:
  "(\<not> is_ErrorAppender val \<and> 0 < maxWidth \<longrightarrow>
      FormatValue sl buf val maxWidth =
        buf @ (if int (length (rendered sl val)) > maxWidth
               then take (nat maxWidth) (rendered sl val) @ ''...''
               else if CHR '' '' \<in> set (rendered sl val)
                    then [DQ] @ rendered sl val @ [DQ]
                    else rendered sl val))
   \<and> (is_ErrorAppender val \<longrightarrow> FormatValue sl buf val maxWidth = buf @ rendered sl val)"
  by (simp add: FormatValue_def FormatValue_switch_Inr FormatValue_switch_Inl)

theorem FormatValue_output_witness:
  "FormatValue sample_stdlib ''x='' (VString ''hello world'') 5 = ''x=hello...''
   \<and> FormatValue sample_stdlib ''x='' (VString ''a b'') 5 = ''x='' @ [DQ] @ ''a b'' @ [DQ]
   \<and> FormatValue sample_stdlib ''x='' (VInt8 255) 5 = ''x=-1''
   \<and> FormatValue sample_stdlib ''x='' (VError (GoError ''a b'' (Some ''a b''))) 1 = ''x=a b''"
proof -
  have a: "FormatValue sample_stdlib ''x='' (VString ''hello world'') 5 = ''x=hello...''"
    using FormatValue_output [of "VString ''hello world''" 5 sample_stdlib "''x=''"]
    by (simp add: is_ErrorAppender_def rendered_def)
  have b: "FormatValue sample_stdlib ''x='' (VString ''a b'') 5 = ''x='' @ [DQ] @ ''a b'' @ [DQ]"
    using FormatValue_output [of "VString ''a b''" 5 sample_stdlib "''x=''"]
    by (simp add: is_ErrorAppender_def rendered_def)
  have c: "FormatValue sample_stdlib ''x='' (VInt8 255) 5 = ''x=-1''"
    using FormatValue_output [of "VInt8 255" 5 sample_stdlib "''x=''"]
    by (simp add: is_ErrorAppender_def rendered_def AppendInt_def itoa_def utoa.simps)
  have d: "FormatValue sample_stdlib ''x='' (VError (GoError ''a b'' (Some ''a b''))) 1 = ''x=a b''"
    using FormatValue_output [of "VError (GoError ''a b'' (Some ''a b''))" 1 sample_stdlib "''x=''"]
    by (simp add: is_ErrorAppender_def rendered_def)
  from a b c d show ?thesis by simp
qed

text \<open>
  C8 as stated fails for an error that implements \<open>ErrorAppender\<close>: its text \<open>a b\<close> is
  longer than the width 1, and is written whole.
\<close>

theorem FormatValue_ErrorAppender_counterexample:
  "1 < int (length (rendered sample_stdlib (VError (GoError ''a b'' (Some ''a b'')))))
   \<and> FormatValue sample_stdlib [] (VError (GoError ''a b'' (Some ''a b''))) 1
       \<noteq> take (nat 1) (rendered sample_stdlib (VError (GoError ''a b'' (Some ''a b'')))) @ ''...''"
  by (simp add: FormatValue_def rendered_def)

section \<open>The CSV formatter\<close>

lemma formatField_other:
  "name \<notin> set builtin_columns \<Longrightarrow>
   formatField sl f [] name entry
   = (case map_of (Fields entry) name of Some val \<Rightarrow> FormatValue sl [] val 0 | None \<Rightarrow> [])"
  by (simp add: formatField_def builtin_columns_def)

lemma formatField_builtin:
  "name \<in> set builtin_columns \<Longrightarrow>
   formatField sl f [] name entry = builtin_column sl f entry name"
  unfolding builtin_columns_def
  by (elim disjE | simp only: set_simps insert_iff empty_iff)+
     (simp_all add: formatField_def builtin_column_def AppendInt_def
        GetSmallByteSliceFromPool_def split: option.splits)

lemma formatField_csv_column: "formatField sl f [] name entry = csv_column sl f entry name"
proof (cases "name \<in> set builtin_columns")
  case True
  then show ?thesis by (simp add: formatField_builtin csv_column_def)
next
  case False
  then show ?thesis by (simp add: formatField_other csv_column_def)
qed

lemma Format_fields_map:
  "Format_fields sl f entry names valBuf rec0
   = rec0 @ map (csv_column sl f entry) names"
  by (induction names arbitrary: valBuf rec0) (simp_all add: formatField_csv_column)

lemma concat_esc_takeWhile:
  "concat (map (\<lambda>c. if c = DQ then [DQ, DQ] else [c])
             (takeWhile (\<lambda>c. c \<noteq> DQ \<and> c \<noteq> CR \<and> c \<noteq> LF) xs))
   = takeWhile (\<lambda>c. c \<noteq> DQ \<and> c \<noteq> CR \<and> c \<noteq> LF) xs"
  by (induction xs) auto

lemma concat_esc_split:
  "concat (map (\<lambda>c. if c = DQ then [DQ, DQ] else [c]) field)
   = takeWhile (\<lambda>c. c \<noteq> DQ \<and> c \<noteq> CR \<and> c \<noteq> LF) field
     @ concat (map (\<lambda>c. if c = DQ then [DQ, DQ] else [c])
                 (dropWhile (\<lambda>c. c \<noteq> DQ \<and> c \<noteq> CR \<and> c \<noteq> LF) field))"
proof -
  let ?esc = "\<lambda>c. if c = DQ then [DQ, DQ] else [c]"
  let ?P = "\<lambda>c. c \<noteq> DQ \<and> c \<noteq> CR \<and> c \<noteq> LF"
  have "concat (map ?esc (takeWhile ?P field @ dropWhile ?P field))
        = concat (map ?esc (takeWhile ?P field)) @ concat (map ?esc (dropWhile ?P field))"
    by (simp only: map_append concat_append)
  then show ?thesis
    by (simp only: concat_esc_takeWhile takeWhile_dropWhile_id)
qed



lemma csv_write_quoted_Nil: "csv_write_quoted w out [] = out"
  by (simp add: csv_write_quoted.simps)

lemma csv_write_quoted_unfold:
  "field \<noteq> [] \<Longrightarrow>
   csv_write_quoted w out field =
     (let out1 = out @ takeWhile (\<lambda>c. c \<noteq> DQ \<and> c \<noteq> CR \<and> c \<noteq> LF) field;
          field1 = dropWhile (\<lambda>c. c \<noteq> DQ \<and> c \<noteq> CR \<and> c \<noteq> LF) field
      in if length field1 > 0 then
           let out2 =
             (if hd field1 = DQ then out1 @ [DQ, DQ]
              else if hd field1 = CR then (if \<not> UseCRLF w then out1 @ [CR] else out1)
              else if hd field1 = LF then (if UseCRLF w then out1 @ [CR, LF] else out1 @ [LF])
              else out1)
           in csv_write_quoted w out2 (drop 1 field1)
         else csv_write_quoted w out1 field1)"
  apply (subst csv_write_quoted.simps)
  apply (simp only: takeWhile_eq_take [symmetric] dropWhile_eq_drop [symmetric] Let_def)
  apply (simp only: length_greater_0_conv not_False_eq_True if_True)
  done


lemma csv_write_quoted_plain:
  "\<not> UseCRLF w \<Longrightarrow>
   csv_write_quoted w out field
   = out @ concat (map (\<lambda>c. if c = DQ then [DQ, DQ] else [c]) field)"
proof (induction "length field" arbitrary: out field rule: less_induct)
  case less
  let ?esc = "\<lambda>c. if c = DQ then [DQ, DQ] else [c]"
  let ?P = "\<lambda>c. c \<noteq> DQ \<and> c \<noteq> CR \<and> c \<noteq> LF"
  show ?case
  proof (cases "field = []")
    case True
    then show ?thesis by (simp add: csv_write_quoted_Nil)
  next
    case False
    note unfold = csv_write_quoted_unfold [OF False, of w out]
    show ?thesis
    proof (cases "dropWhile ?P field")
      case Nil
      have "csv_write_quoted w out field = out @ takeWhile ?P field"
        unfolding unfold Let_def Nil by (simp add: csv_write_quoted_Nil)
      also have "\<dots> = out @ concat (map ?esc field)"
        using concat_esc_split [of field] Nil by simp
      finally show ?thesis .
    next
      case (Cons c rest)
      have "length (dropWhile ?P field) \<le> length field"
        by (rule length_dropWhile_le)
      then have "length rest < length field"
        by (simp add: Cons)
      then have ih: "csv_write_quoted w out2 rest = out2 @ concat (map ?esc rest)" for out2
        using less.hyps less.prems by blast
      have c: "c = DQ \<or> c = CR \<or> c = LF"
        using hd_dropWhile [of ?P field] Cons by auto
      have "csv_write_quoted w out field
            = csv_write_quoted w ((out @ takeWhile ?P field) @ ?esc c) rest"
        unfolding unfold Let_def Cons using c less.prems by auto
      also have "\<dots> = out @ takeWhile ?P field @ concat (map ?esc (c # rest))"
        by (simp add: ih)
      also have "\<dots> = out @ concat (map ?esc field)"
        using concat_esc_split [of field] by (simp only: Cons)
      finally show ?thesis .
    qed
  qed
qed


lemma csv_write_quoted_cell:
  "csv_write_quoted csv_NewWriter (out @ [DQ]) field @ [DQ] = out @ csv_quoted field"
  by (simp add: csv_write_quoted_plain csv_NewWriter_def csv_quoted_def)

lemma csv_write_fields_step:
  "csv_write_fields sl csv_NewWriter out n (c # cs)
   = csv_write_fields sl csv_NewWriter
       ((if n > 0 then out @ '','' else out) @ csv_cell sl c) (Suc n) cs"
proof -
  have comma: "Comma csv_NewWriter = CHR '',''"
    by (simp add: csv_NewWriter_def)
  show ?thesis
    by (simp add: Let_def csv_cell_def csv_write_quoted_cell comma)
qed

lemma csv_write_fields_join:
  "csv_write_fields sl csv_NewWriter out n columns
   = out @ (if n > 0 \<and> columns \<noteq> [] then '','' else [])
         @ join_commas (map (csv_cell sl) columns)"
proof (induction columns arbitrary: out n)
  case Nil
  then show ?case by simp
next
  case (Cons c cs)
  show ?case
    unfolding csv_write_fields_step Cons.IH by (cases cs) simp_all
qed

lemma csv_Write_record:
  "csv_Write sl csv_NewWriter out columns = Inr (out @ csv_record sl columns)"
proof -
  have "validDelim (Comma csv_NewWriter)" "\<not> UseCRLF csv_NewWriter"
    by (simp_all add: csv_NewWriter_def validDelim_def)
  then show ?thesis
    by (simp add: csv_Write_def csv_write_fields_join csv_record_def Let_def)
qed

lemma CSVFormatter_Format_eq:
  "CSVFormatter_Format sl f buf entry
   = (buf @ csv_record sl (map (csv_column sl f entry) (FieldOrder f)), None)"
  by (simp add: CSVFormatter_Format_def Let_def Format_fields_map GetStringSliceFromPool_def
      csv_Write_record)

lemma csv_column_IncludeHeader:
  "csv_column sl (f\<lparr>IncludeHeader := b\<rparr>) entry = csv_column sl f entry"
  by (rule ext) (simp add: csv_column_def builtin_column_def)


text \<open>
  C9. The output of \<open>Format\<close> does not depend on \<open>IncludeHeader\<close>: no header row is
  ever written.
\<close>

theorem CSVFormatter_IncludeHeader_ignored:
  "CSVFormatter_Format sl (f\<lparr>IncludeHeader := b\<rparr>) buf entry
   = CSVFormatter_Format sl f buf entry"
  by (simp add: CSVFormatter_Format_eq csv_column_IncludeHeader)



section \<open>The JSON formatter\<close>

lemma escapeJSON_append: "escapeJSON buf data = buf @ concat (map escape_byte data)"
  by (induction data arbitrary: buf) simp_all

lemma isSensitive_iff: "isSensitive f field = (field \<in> set (SensitiveFields f))"
proof -
  have "isSensitive_loop field xs = (field \<in> set xs)" for xs
    by (induction xs) auto
  then show ?thesis by (simp add: isSensitive_def)
qed

text \<open>
  C1. With masking enabled and \<open>password\<close> in the sensitive set, \<open>processFields\<close> would
  replace the value by the mask, but \<open>Format\<close> never calls it: the JSON output holds the
  true value, with or without pretty printing. The CSV formatter, which has no sensitive
  set at all, prints it as well.
\<close>

theorem Format_prints_sensitive_field:
  "MaskSensitiveData masking_formatter
   \<and> isSensitive masking_formatter ''password''
   \<and> processFields masking_formatter (Fields sample_entry) ''password''
       = Some (VBytes ''[MASKED]'')
   \<and> JSONFormatter_Format sample_stdlib masking_formatter [] sample_entry
       = ''{'' @ [DQ] @ ''timestamp'' @ [DQ] @ '':'' @ [DQ] @ [DQ] @ '',''
         @ [DQ] @ ''level_name'' @ [DQ] @ '':'' @ [DQ] @ ''INFO'' @ [DQ] @ '',''
         @ [DQ] @ ''message'' @ [DQ] @ '':'' @ [DQ] @ ''user login'' @ [DQ] @ '',''
         @ [DQ] @ ''fields'' @ [DQ] @ '':{''
         @ [DQ] @ ''user_id'' @ [DQ] @ '':123,''
         @ [DQ] @ ''action'' @ [DQ] @ '':'' @ [DQ] @ ''login'' @ [DQ] @ '',''
         @ [DQ] @ ''password'' @ [DQ]  @ '':'' @ [DQ] @ ''hunter2'' @ [DQ] @ ''}}'' @ [LF]
   \<and> JSONFormatter_Format sample_stdlib (masking_formatter\<lparr>PrettyPrint := True\<rparr>) []
         (sample_entry\<lparr>Fields := [(''password'', VString ''hunter2'')]\<rparr>)
       = ''{'' @ [LF] @ ''  '' @ [DQ] @ ''timestamp'' @ [DQ] @ '': '' @ [DQ]
           @ [DQ] @ '','' @ [LF]
         @ ''  '' @ [DQ] @ ''level_name'' @ [DQ] @ '': '' @ [DQ] @ ''INFO'' @ [DQ] @ '','' @ [LF]
         @ ''  '' @ [DQ] @ ''message'' @ [DQ] @ '': '' @ [DQ] @ ''user login'' @ [DQ] @ '','' @ [LF]
         @ ''  '' @ [DQ] @ ''fields'' @ [DQ] @ '': {'' @ [LF]
         @ ''    '' @ [DQ] @ ''password'' @ [DQ] @ '': '' @ [DQ] @ ''hunter2'' @ [DQ] @ [LF]
         @ ''    }'' @ [LF] @ ''}'' @ [LF]
   \<and> CSVFormatter_Format sample_stdlib
         \<lparr>IncludeHeader = False, FieldOrder = [''password''], TimestampFormat_csv = []\<rparr> []
         sample_entry
       = (''hunter2'' @ [LF], None)"
proof (intro conjI)
  show "MaskSensitiveData masking_formatter"
    by (simp add: masking_formatter_def)
  show "isSensitive masking_formatter ''password''"
    by (simp add: isSensitive_def masking_formatter_def)
  show "processFields masking_formatter (Fields sample_entry) ''password''
        = Some (VBytes ''[MASKED]'')"
    by (simp add: processFields_def sample_entry_def masking_formatter_def NewJSONFormatter_def
        isSensitive_def Let_def)
  show "JSONFormatter_Format sample_stdlib masking_formatter [] sample_entry
       = ''{'' @ [DQ] @ ''timestamp'' @ [DQ] @ '':'' @ [DQ] @ [DQ] @ '',''
         @ [DQ] @ ''level_name'' @ [DQ] @ '':'' @ [DQ] @ ''INFO'' @ [DQ] @ '',''
         @ [DQ] @ ''message'' @ [DQ] @ '':'' @ [DQ] @ ''user login'' @ [DQ] @ '',''
         @ [DQ] @ ''fields'' @ [DQ] @ '':{''
         @ [DQ] @ ''user_id'' @ [DQ] @ '':123,''
         @ [DQ] @ ''action'' @ [DQ] @ '':'' @ [DQ] @ ''login'' @ [DQ] @ '',''
         @ [DQ] @ ''password'' @ [DQ]  @ '':'' @ [DQ] @ ''hunter2'' @ [DQ] @ ''}}'' @ [LF]"
    by (simp add: JSONFormatter_Format_def masking_formatter_def NewJSONFormatter_def
        formatManually_def FormatTimestamp_def sample_stdlib_def RFC3339_def sample_entry_def Let_def
        escape_byte_def AppendInt_def itoa_def utoa.simps)
  show "JSONFormatter_Format sample_stdlib (masking_formatter\<lparr>PrettyPrint := True\<rparr>) []
         (sample_entry\<lparr>Fields := [(''password'', VString ''hunter2'')]\<rparr>)
       = ''{'' @ [LF] @ ''  '' @ [DQ] @ ''timestamp'' @ [DQ] @ '': '' @ [DQ]
           @ [DQ] @ '','' @ [LF]
         @ ''  '' @ [DQ] @ ''level_name'' @ [DQ] @ '': '' @ [DQ] @ ''INFO'' @ [DQ] @ '','' @ [LF]
         @ ''  '' @ [DQ] @ ''message'' @ [DQ] @ '': '' @ [DQ] @ ''user login'' @ [DQ] @ '','' @ [LF]
         @ ''  '' @ [DQ] @ ''fields'' @ [DQ] @ '': {'' @ [LF]
         @ ''    '' @ [DQ] @ ''password'' @ [DQ] @ '': '' @ [DQ] @ ''hunter2'' @ [DQ] @ [LF]
         @ ''    }'' @ [LF] @ ''}'' @ [LF]"
    by (simp add: JSONFormatter_Format_def formatWithStandardEncoder_def masking_formatter_def
        NewJSONFormatter_def formatManuallyWithIndent_def FormatTimestamp_def newline_def
        sample_stdlib_def RFC3339_def sample_entry_def Let_def escape_byte_def numeral_2_eq_2)
  show "CSVFormatter_Format sample_stdlib
         \<lparr>IncludeHeader = False, FieldOrder = [''password''], TimestampFormat_csv = []\<rparr> []
         sample_entry
       = (''hunter2'' @ [LF], None)"
    by (simp add: CSVFormatter_Format_def Let_def formatField_def csv_Write_def
        csv_NewWriter_def validDelim_def fieldNeedsQuotes_def sample_stdlib_def
        IsSpace_encodings_def sample_entry_def
        FormatValue_def GetStringSliceFromPool_def GetBufferFromPool_def)
qed

text \<open>
  C3. Field names are written between quotes without escaping, while messages and string
  values are escaped. The entry with the single field name \<open>a":1,"b\<close> and the entry
  with the two fields \<open>a\<close> and \<open>b\<close> are formatted to the same bytes, so no parser gives
  back the field names and values of both.
\<close>

theorem Format_field_name_not_escaped:
  "JSONFormatter_Format sample_stdlib NewJSONFormatter [] quoted_name_entry
   = ''{'' @ [DQ] @ ''timestamp'' @ [DQ] @ '':'' @ [DQ] @ [DQ] @ '',''
     @ [DQ] @ ''level_name'' @ [DQ] @ '':'' @ [DQ] @ ''INFO'' @ [DQ] @ '',''
     @ [DQ] @ ''message'' @ [DQ] @ '':'' @ [DQ] @ ''user login'' @ [DQ] @ '',''
     @ [DQ] @ ''fields'' @ [DQ] @ '':{''
     @ [DQ] @ ''a'' @ [DQ] @ '':1,'' @ [DQ] @ ''b'' @ [DQ] @ '':2}}'' @ [LF]
   \<and> JSONFormatter_Format sample_stdlib NewJSONFormatter [] quoted_name_entry
     = JSONFormatter_Format sample_stdlib NewJSONFormatter [] two_fields_entry
   \<and> set (Fields quoted_name_entry) \<noteq> set (Fields two_fields_entry)"
proof (intro conjI)
  have a: "JSONFormatter_Format sample_stdlib NewJSONFormatter [] quoted_name_entry
   = ''{'' @ [DQ] @ ''timestamp'' @ [DQ] @ '':'' @ [DQ] @ [DQ] @ '',''
     @ [DQ] @ ''level_name'' @ [DQ] @ '':'' @ [DQ] @ ''INFO'' @ [DQ] @ '',''
     @ [DQ] @ ''message'' @ [DQ] @ '':'' @ [DQ] @ ''user login'' @ [DQ] @ '',''
     @ [DQ] @ ''fields'' @ [DQ] @ '':{''
     @ [DQ] @ ''a'' @ [DQ] @ '':1,'' @ [DQ] @ ''b'' @ [DQ] @ '':2}}'' @ [LF]"
    by (simp add: JSONFormatter_Format_def NewJSONFormatter_def formatManually_def
        FormatTimestamp_def sample_stdlib_def RFC3339_def sample_entry_def quoted_name_entry_def Let_def
        escape_byte_def AppendInt_def itoa_def utoa.simps)
  have b: "JSONFormatter_Format sample_stdlib NewJSONFormatter [] two_fields_entry
   = ''{'' @ [DQ] @ ''timestamp'' @ [DQ] @ '':'' @ [DQ] @ [DQ] @ '',''
     @ [DQ] @ ''level_name'' @ [DQ] @ '':'' @ [DQ] @ ''INFO'' @ [DQ] @ '',''
     @ [DQ] @ ''message'' @ [DQ] @ '':'' @ [DQ] @ ''user login'' @ [DQ] @ '',''
     @ [DQ] @ ''fields'' @ [DQ] @ '':{''
     @ [DQ] @ ''a'' @ [DQ] @ '':1,'' @ [DQ] @ ''b'' @ [DQ] @ '':2}}'' @ [LF]"
    by (simp add: JSONFormatter_Format_def NewJSONFormatter_def formatManually_def
        FormatTimestamp_def sample_stdlib_def RFC3339_def sample_entry_def two_fields_entry_def Let_def
        escape_byte_def AppendInt_def itoa_def utoa.simps)
  show "JSONFormatter_Format sample_stdlib NewJSONFormatter [] quoted_name_entry
   = ''{'' @ [DQ] @ ''timestamp'' @ [DQ] @ '':'' @ [DQ] @ [DQ] @ '',''
     @ [DQ] @ ''level_name'' @ [DQ] @ '':'' @ [DQ] @ ''INFO'' @ [DQ] @ '',''
     @ [DQ] @ ''message'' @ [DQ] @ '':'' @ [DQ] @ ''user login'' @ [DQ] @ '',''
     @ [DQ] @ ''fields'' @ [DQ] @ '':{''
     @ [DQ] @ ''a'' @ [DQ] @ '':1,'' @ [DQ] @ ''b'' @ [DQ] @ '':2}}'' @ [LF]"
    by (rule a)
  show "JSONFormatter_Format sample_stdlib NewJSONFormatter [] quoted_name_entry
     = JSONFormatter_Format sample_stdlib NewJSONFormatter [] two_fields_entry"
    by (simp only: a b)
  show "set (Fields quoted_name_entry) \<noteq> set (Fields two_fields_entry)"
    by (simp add: quoted_name_entry_def two_fields_entry_def)
qed

section \<open>Firing the external hook\<close>

lemma Fire_loop_done:
  "\<not> attempt < maxRetries h \<Longrightarrow>
   Fire_loop h payload net attempt lastErr = (Some (SendFailedAfter (maxRetries h) lastErr), [])"
  by (simp add: Fire_loop.simps)

lemma Fire_loop_request_error:
  "attempt < maxRetries h \<Longrightarrow> net attempt = NewRequestError err \<Longrightarrow>
   Fire_loop h payload net attempt lastErr = (Some (CreateRequestFailed err), [])"
  by (simp add: Fire_loop.simps)

lemma Fire_loop_success:
  "attempt < maxRetries h \<Longrightarrow> succeeded (net attempt) \<Longrightarrow>
   Fire_loop h payload net attempt lastErr = (None, [Post attempt payload])"
  by (cases "net attempt") (simp_all add: Fire_loop.simps)

lemma Fire_loop_retry:
  "attempt < maxRetries h \<Longrightarrow> attempt_failed (net attempt) \<Longrightarrow>
   Fire_loop h payload net attempt lastErr
   = (fst (Fire_loop h payload net (attempt + 1) (Some (attempt_error attempt (net attempt)))),
      Post attempt payload # backoff h attempt
        @ snd (Fire_loop h payload net (attempt + 1)
                 (Some (attempt_error attempt (net attempt)))))"
  by (cases "net attempt")
     (auto simp: Fire_loop.simps [of h payload net attempt] split: prod.splits)

lemma outcome_cases:
  "succeeded out \<or> attempt_failed out \<or> (\<exists>err. out = NewRequestError err)"
  by (cases out) auto

lemma succeeded_not_failed: "succeeded out \<Longrightarrow> \<not> attempt_failed out"
  by (cases out) auto

lemma posts_backoff [simp]: "posts (backoff h attempt @ events) = posts events"
  by (simp add: posts_def backoff_def)

lemma posts_Post [simp]: "posts (Post attempt body # events) = Post attempt body # posts events"
  by (simp add: posts_def)

lemma posts_Nil [simp]: "posts [] = []"
  by (simp add: posts_def)

lemma Fire_loop_posts_le:
  "length (posts (snd (Fire_loop h payload net attempt lastErr)))
   \<le> nat (maxRetries h - attempt)"
proof (induction "nat (maxRetries h - attempt)" arbitrary: attempt lastErr rule: less_induct)
  case less
  show ?case
  proof (cases "attempt < maxRetries h")
    case False
    then show ?thesis by (simp add: Fire_loop_done)
  next
    case True
    then have m: "nat (maxRetries h - (attempt + 1)) < nat (maxRetries h - attempt)"
      by simp
    consider "succeeded (net attempt)" | "attempt_failed (net attempt)"
      | err where "net attempt = NewRequestError err"
      using outcome_cases by blast
    then show ?thesis
    proof cases
      case 1
      then show ?thesis using True by (simp add: Fire_loop_success)
    next
      case 2
      then show ?thesis
        using True less.hyps [OF m, of "Some (attempt_error attempt (net attempt))"]
        by (simp add: Fire_loop_retry)
    next
      case 3
      then show ?thesis using True by (simp add: Fire_loop_request_error)
    qed
  qed
qed

lemma backoff_no_Post [simp]: "Post i body \<notin> set (backoff h attempt)"
  by (simp add: backoff_def)

lemma Fire_loop_nil_iff:
  "(fst (Fire_loop h payload net attempt lastErr) = None)
   = (\<exists>i body. Post i body \<in> set (snd (Fire_loop h payload net attempt lastErr))
        \<and> succeeded (net i))"
proof (induction "nat (maxRetries h - attempt)" arbitrary: attempt lastErr rule: less_induct)
  case less
  show ?case
  proof (cases "attempt < maxRetries h")
    case False
    then show ?thesis by (simp add: Fire_loop_done)
  next
    case True
    then have m: "nat (maxRetries h - (attempt + 1)) < nat (maxRetries h - attempt)"
      by simp
    consider "succeeded (net attempt)" | "attempt_failed (net attempt)"
      | err where "net attempt = NewRequestError err"
      using outcome_cases by blast
    then show ?thesis
    proof cases
      case 1
      then show ?thesis using True by (auto simp: Fire_loop_success)
    next
      case 2
      then have ns: "\<not> succeeded (net attempt)"
        using succeeded_not_failed by blast
      show ?thesis
        using True 2 ns less.hyps [OF m, of "Some (attempt_error attempt (net attempt))"]
        by (auto simp: Fire_loop_retry)
    next
      case 3
      then show ?thesis using True by (simp add: Fire_loop_request_error)
    qed
  qed
qed

lemma Fire_loop_all_failed:
  "(\<forall>i. attempt \<le> i \<and> i < maxRetries h \<longrightarrow> attempt_failed (net i)) \<Longrightarrow>
   fst (Fire_loop h payload net attempt lastErr)
   = Some (SendFailedAfter (maxRetries h)
       (if attempt < maxRetries h
        then Some (attempt_error (maxRetries h - 1) (net (maxRetries h - 1)))
        else lastErr))
   \<and> length (posts (snd (Fire_loop h payload net attempt lastErr)))
     = nat (maxRetries h - attempt)"
proof (induction "nat (maxRetries h - attempt)" arbitrary: attempt lastErr rule: less_induct)
  case less
  show ?case
  proof (cases "attempt < maxRetries h")
    case False
    then show ?thesis by (simp add: Fire_loop_done)
  next
    case True
    then have m: "nat (maxRetries h - (attempt + 1)) < nat (maxRetries h - attempt)"
      by simp
    have f: "attempt_failed (net attempt)"
      using less.prems True by simp
    have rest: "\<forall>i. attempt + 1 \<le> i \<and> i < maxRetries h \<longrightarrow> attempt_failed (net i)"
      using less.prems by simp
    note ih = less.hyps [OF m rest, of "Some (attempt_error attempt (net attempt))"]
    show ?thesis
    proof (cases "attempt + 1 < maxRetries h")
      case more: True
      then show ?thesis using True f ih by (simp add: Fire_loop_retry)
    next
      case last: False
      then have e: "maxRetries h - 1 = attempt" using True by simp
      show ?thesis using True f ih last by (simp add: Fire_loop_retry e)
    qed
  qed
qed


lemma Fire_loop_nil_net:
  "(fst (Fire_loop h payload net attempt lastErr) = None)
   = (\<exists>i. attempt \<le> i \<and> i < maxRetries h \<and> succeeded (net i)
        \<and> (\<forall>j. attempt \<le> j \<and> j < i \<longrightarrow> attempt_failed (net j)))"
proof (induction "nat (maxRetries h - attempt)" arbitrary: attempt lastErr rule: less_induct)
  case less
  show ?case
  proof (cases "attempt < maxRetries h")
    case False
    then show ?thesis by (auto simp: Fire_loop_done)
  next
    case True
    then have m: "nat (maxRetries h - (attempt + 1)) < nat (maxRetries h - attempt)"
      by simp
    consider "succeeded (net attempt)" | "attempt_failed (net attempt)"
      | err where "net attempt = NewRequestError err"
      using outcome_cases by blast
    then show ?thesis
    proof cases
      case 1
      have "\<exists>i. attempt \<le> i \<and> i < maxRetries h \<and> succeeded (net i)
              \<and> (\<forall>j. attempt \<le> j \<and> j < i \<longrightarrow> attempt_failed (net j))"
        using 1 True by (intro exI [of _ attempt]) auto
      then show ?thesis using 1 True by (simp add: Fire_loop_success)
    next
      case 2
      then have ns: "\<not> succeeded (net attempt)"
        using succeeded_not_failed by blast
      have "(\<exists>i. attempt + 1 \<le> i \<and> i < maxRetries h \<and> succeeded (net i)
               \<and> (\<forall>j. attempt + 1 \<le> j \<and> j < i \<longrightarrow> attempt_failed (net j)))
            = (\<exists>i. attempt \<le> i \<and> i < maxRetries h \<and> succeeded (net i)
               \<and> (\<forall>j. attempt \<le> j \<and> j < i \<longrightarrow> attempt_failed (net j)))"
      proof
        assume "\<exists>i. attempt + 1 \<le> i \<and> i < maxRetries h \<and> succeeded (net i)
               \<and> (\<forall>j. attempt + 1 \<le> j \<and> j < i \<longrightarrow> attempt_failed (net j))"
        then obtain i where i: "attempt + 1 \<le> i" "i < maxRetries h" "succeeded (net i)"
          "\<forall>j. attempt + 1 \<le> j \<and> j < i \<longrightarrow> attempt_failed (net j)"
          by blast
        have "\<forall>j. attempt \<le> j \<and> j < i \<longrightarrow> attempt_failed (net j)"
        proof (intro allI impI)
          fix j assume j: "attempt \<le> j \<and> j < i"
          show "attempt_failed (net j)"
          proof (cases "j = attempt")
            case True
            then show ?thesis using 2 by simp
          next
            case False
            then have "attempt + 1 \<le> j" using j by simp
            then show ?thesis using i(4) j by blast
          qed
        qed
        then show "\<exists>i. attempt \<le> i \<and> i < maxRetries h \<and> succeeded (net i)
               \<and> (\<forall>j. attempt \<le> j \<and> j < i \<longrightarrow> attempt_failed (net j))"
          using i by (intro exI [of _ i]) simp
      next
        assume "\<exists>i. attempt \<le> i \<and> i < maxRetries h \<and> succeeded (net i)
               \<and> (\<forall>j. attempt \<le> j \<and> j < i \<longrightarrow> attempt_failed (net j))"
        then obtain i where i: "attempt \<le> i" "i < maxRetries h" "succeeded (net i)"
          "\<forall>j. attempt \<le> j \<and> j < i \<longrightarrow> attempt_failed (net j)"
          by blast
        have "i \<noteq> attempt" using i(3) ns by blast
        then have "attempt + 1 \<le> i" using i(1) by simp
        moreover have "\<forall>j. attempt + 1 \<le> j \<and> j < i \<longrightarrow> attempt_failed (net j)"
          using i(4) by simp
        ultimately show "\<exists>i. attempt + 1 \<le> i \<and> i < maxRetries h \<and> succeeded (net i)
               \<and> (\<forall>j. attempt + 1 \<le> j \<and> j < i \<longrightarrow> attempt_failed (net j))"
          using i by (intro exI [of _ i]) simp
      qed
      then show ?thesis
        using True 2 less.hyps [OF m, of "Some (attempt_error attempt (net attempt))"]
        by (simp add: Fire_loop_retry)
    next
      case 3
      then have nf: "\<not> attempt_failed (net attempt)" "\<not> succeeded (net attempt)"
        by simp_all
      have "\<not> (\<exists>i. attempt \<le> i \<and> i < maxRetries h \<and> succeeded (net i)
               \<and> (\<forall>j. attempt \<le> j \<and> j < i \<longrightarrow> attempt_failed (net j)))"
      proof
        assume "\<exists>i. attempt \<le> i \<and> i < maxRetries h \<and> succeeded (net i)
               \<and> (\<forall>j. attempt \<le> j \<and> j < i \<longrightarrow> attempt_failed (net j))"
        then obtain i where i: "attempt \<le> i" "succeeded (net i)"
          "\<forall>j. attempt \<le> j \<and> j < i \<longrightarrow> attempt_failed (net j)"
          by blast
        have "i \<noteq> attempt" using i(2) nf(2) by blast
        then have "attempt < i" using i(1) by simp
        then show False using i(3) nf(1) by auto
      qed
      then show ?thesis using 3 True by (simp add: Fire_loop_request_error)
    qed
  qed
qed

lemma Fire_loop_posts_success:
  "attempt \<le> i \<Longrightarrow> i < maxRetries h \<Longrightarrow> succeeded (net i) \<Longrightarrow>
   (\<forall>j. attempt \<le> j \<and> j < i \<longrightarrow> attempt_failed (net j)) \<Longrightarrow>
   posts (snd (Fire_loop h payload net attempt lastErr))
   = map (\<lambda>k. Post k payload) [attempt..i]"
proof (induction "nat (i - attempt)" arbitrary: attempt lastErr)
  case 0
  then have "attempt = i" by simp
  then show ?case using 0 by (simp add: Fire_loop_success)
next
  case (Suc n)
  then have lt: "attempt < i" by simp
  then have a: "attempt < maxRetries h" using Suc.prems by simp
  have f: "attempt_failed (net attempt)" using Suc.prems lt by simp
  have n: "n = nat (i - (attempt + 1))" using Suc.hyps(2) by simp
  have rest: "\<forall>j. attempt + 1 \<le> j \<and> j < i \<longrightarrow> attempt_failed (net j)"
    using Suc.prems by simp
  have "posts (snd (Fire_loop h payload net (attempt + 1)
                (Some (attempt_error attempt (net attempt)))))
        = map (\<lambda>k. Post k payload) [attempt + 1..i]"
    using Suc.hyps(1) [OF n _ Suc.prems(2,3) rest] lt by simp
  moreover have "[attempt..i] = attempt # [attempt + 1..i]"
    using lt by (simp add: upto_rec1)
  ultimately show ?case using a f by (simp add: Fire_loop_retry)
qed

text \<open>
  C10. With \<open>maxRetries = r > 0\<close>, \<open>Fire\<close> returns (the retry loop is a total function)
  after at most \<open>r\<close> requests. It returns no error exactly when the entry can be serialised
  and one of the first \<open>r\<close> attempts meets a response with a status in \<open>[200, 300)\<close>, every
  attempt before it having failed; this is the case exactly when one of the requests that
  \<open>Fire\<close> sent received such a status, and the requests sent are then those of the attempts
  up to that one. When the entry can be serialised and each of the \<open>r\<close> attempts fails,
  \<open>Fire\<close> sends \<open>r\<close> requests and returns the error "failed to send log after r attempts"
  wrapping the error of attempt \<open>r\<close>, the last one.
\<close>

theorem Fire_retries:
  "0 < maxRetries h \<longrightarrow>
     length (posts (snd (Fire h marshalled net))) \<le> nat (maxRetries h)
     \<and> (fst (Fire h marshalled net) = None)
       = ((\<exists>payload. marshalled = Inr payload)
          \<and> (\<exists>i. 0 \<le> i \<and> i < maxRetries h \<and> succeeded (net i)
                \<and> (\<forall>j. 0 \<le> j \<and> j < i \<longrightarrow> attempt_failed (net j))))
     \<and> (fst (Fire h marshalled net) = None)
       = (\<exists>i body. Post i body \<in> set (snd (Fire h marshalled net)) \<and> succeeded (net i))
     \<and> (\<forall>payload i. marshalled = Inr payload \<and> 0 \<le> i \<and> i < maxRetries h \<and> succeeded (net i)
            \<and> (\<forall>j. 0 \<le> j \<and> j < i \<longrightarrow> attempt_failed (net j)) \<longrightarrow>
          fst (Fire h marshalled net) = None
          \<and> posts (snd (Fire h marshalled net)) = map (\<lambda>k. Post k payload) [0..i])
     \<and> ((\<exists>payload. marshalled = Inr payload)
         \<and> (\<forall>i. 0 \<le> i \<and> i < maxRetries h \<longrightarrow> attempt_failed (net i)) \<longrightarrow>
           fst (Fire h marshalled net)
           = Some (SendFailedAfter (maxRetries h)
                    (Some (attempt_error (maxRetries h - 1) (net (maxRetries h - 1)))))
           \<and> length (posts (snd (Fire h marshalled net))) = nat (maxRetries h))"
proof (cases marshalled)
  case (Inl err)
  then show ?thesis by (simp add: Fire_def)
next
  case (Inr payload)
  have F: "Fire h marshalled net = Fire_loop h payload net 0 None"
    using Inr by (simp add: Fire_def)
  show ?thesis
  proof (intro impI conjI allI)
    show "length (posts (snd (Fire h marshalled net))) \<le> nat (maxRetries h)"
      using Fire_loop_posts_le [of h payload net 0 None] by (simp add: F)
    show "(fst (Fire h marshalled net) = None)
       = ((\<exists>payload. marshalled = Inr payload)
          \<and> (\<exists>i. 0 \<le> i \<and> i < maxRetries h \<and> succeeded (net i)
                \<and> (\<forall>j. 0 \<le> j \<and> j < i \<longrightarrow> attempt_failed (net j))))"
      using Fire_loop_nil_net [of h payload net 0 None] Inr by (simp add: Fire_def)
    show "(fst (Fire h marshalled net) = None)
       = (\<exists>i body. Post i body \<in> set (snd (Fire h marshalled net)) \<and> succeeded (net i))"
      using Fire_loop_nil_iff [of h payload net 0 None] by (simp add: F)
  next
    fix payload' i
    assume a: "marshalled = Inr payload' \<and> 0 \<le> i \<and> i < maxRetries h \<and> succeeded (net i)
            \<and> (\<forall>j. 0 \<le> j \<and> j < i \<longrightarrow> attempt_failed (net j))"
    then have p: "payload' = payload" using Inr by simp
    from a have "\<exists>i. 0 \<le> i \<and> i < maxRetries h \<and> succeeded (net i)
                \<and> (\<forall>j. 0 \<le> j \<and> j < i \<longrightarrow> attempt_failed (net j))"
      by blast
    then show "fst (Fire h marshalled net) = None"
      using Fire_loop_nil_net [of h payload net 0 None] by (simp add: F)
    show "posts (snd (Fire h marshalled net)) = map (\<lambda>k. Post k payload') [0..i]"
      using a Fire_loop_posts_success [of 0 i h net payload None] by (simp add: Fire_def p)
  next
    assume r: "0 < maxRetries h"
    assume "(\<exists>payload. marshalled = Inr payload)
         \<and> (\<forall>i. 0 \<le> i \<and> i < maxRetries h \<longrightarrow> attempt_failed (net i))"
    then have all: "\<forall>i. 0 \<le> i \<and> i < maxRetries h \<longrightarrow> attempt_failed (net i)"
      by blast
    from Fire_loop_all_failed [OF all, of payload None] r
    show "fst (Fire h marshalled net)
           = Some (SendFailedAfter (maxRetries h)
                    (Some (attempt_error (maxRetries h - 1) (net (maxRetries h - 1)))))"
      and "length (posts (snd (Fire h marshalled net))) = nat (maxRetries h)"
      by (simp_all add: F)
  qed
qed

theorem Fire_retries_witness:
  "fst (Fire sample_hook (Inr ''{}'') (\<lambda>i. Response 200)) = None
   \<and> posts (snd (Fire sample_hook (Inr ''{}'') (\<lambda>i. Response 200))) = [Post 0 ''{}'']
   \<and> fst (Fire sample_hook (Inr ''{}'') (\<lambda>i. if i < 2 then Response 500 else Response 200)) = None
   \<and> posts (snd (Fire sample_hook (Inr ''{}'')
               (\<lambda>i. if i < 2 then Response 500 else Response 200)))
     = [Post 0 ''{}'', Post 1 ''{}'', Post 2 ''{}'']
   \<and> fst (Fire sample_hook (Inr ''{}'') (\<lambda>i. Response 500))
     = Some (SendFailedAfter 3 (Some (AttemptStatus 3 500)))
   \<and> length (posts (snd (Fire sample_hook (Inr ''{}'') (\<lambda>i. Response 500)))) = 3
   \<and> fst (Fire sample_hook (Inl ''unsupported type'') (\<lambda>i. Response 200)) \<noteq> None"
proof -
  have r: "0 < maxRetries sample_hook" and m: "maxRetries sample_hook = 3"
    by (simp_all add: sample_hook_def)
  let ?ok = "\<lambda>i::int. Response 200"
  let ?late = "\<lambda>i::int. if i < 2 then Response 500 else Response 200"
  let ?bad = "\<lambda>i::int. Response 500"
  have ok: "(Inr ''{}'' :: string + string) = Inr ''{}'' \<and> (0::int) \<le> 0 \<and> 0 < maxRetries sample_hook
      \<and> succeeded (?ok 0) \<and> (\<forall>j. 0 \<le> j \<and> j < 0 \<longrightarrow> attempt_failed (?ok j))"
    by (simp add: m)
  have a: "fst (Fire sample_hook (Inr ''{}'') ?ok) = None
      \<and> posts (snd (Fire sample_hook (Inr ''{}'') ?ok)) = map (\<lambda>k. Post k ''{}'') [0..0]"
    using Fire_retries [of sample_hook "Inr ''{}''" ?ok, rule_format, OF r] ok by blast
  have late: "(Inr ''{}'' :: string + string) = Inr ''{}'' \<and> (0::int) \<le> 2 \<and> 2 < maxRetries sample_hook
      \<and> succeeded (?late 2) \<and> (\<forall>j. 0 \<le> j \<and> j < 2 \<longrightarrow> attempt_failed (?late j))"
    by (simp add: m)
  have b: "fst (Fire sample_hook (Inr ''{}'') ?late) = None
      \<and> posts (snd (Fire sample_hook (Inr ''{}'') ?late)) = map (\<lambda>k. Post k ''{}'') [0..2]"
    using Fire_retries [of sample_hook "Inr ''{}''" ?late, rule_format, OF r] late by blast
  have bad: "(\<exists>payload. (Inr ''{}'' :: string + string) = Inr payload)
           \<and> (\<forall>i. 0 \<le> i \<and> i < maxRetries sample_hook \<longrightarrow> attempt_failed (?bad i))"
    by simp
  have c: "fst (Fire sample_hook (Inr ''{}'') ?bad)
      = Some (SendFailedAfter (maxRetries sample_hook)
          (Some (attempt_error (maxRetries sample_hook - 1) (?bad (maxRetries sample_hook - 1)))))
    \<and> length (posts (snd (Fire sample_hook (Inr ''{}'') ?bad)))
      = nat (maxRetries sample_hook)"
    using Fire_retries [of sample_hook "Inr ''{}''" ?bad, rule_format, OF r] bad by blast
  have "(fst (Fire sample_hook (Inl ''unsupported type'') ?ok) = None)
      = ((\<exists>payload. (Inl ''unsupported type'' :: string + string) = Inr payload)
          \<and> (\<exists>i. 0 \<le> i \<and> i < maxRetries sample_hook \<and> succeeded (?ok i)
                \<and> (\<forall>j. 0 \<le> j \<and> j < i \<longrightarrow> attempt_failed (?ok j))))"
    using Fire_retries [of sample_hook "Inl ''unsupported type''" ?ok, rule_format, OF r]
    by blast
  then have d: "fst (Fire sample_hook (Inl ''unsupported type'') ?ok) \<noteq> None"
    by simp
  have u0: "[0..0::int] = [0]" and u2: "[0..2::int] = [0, 1, 2]"
    by (simp_all add: upto_rec1)
  from a b c d show ?thesis by (simp add: m u0 u2)
qed

text \<open>The second test of the hook: two responses 500, then 200. Three requests are sent,
  with sleeps of 100 and 200 milliseconds between them.\<close>

lemma Fire_two_failures_then_success:
  "Fire sample_hook (Inr ''{}'') (\<lambda>i. if i < 2 then Response 500 else Response 200)
   = (None, [Post 0 ''{}'', Sleep 100000000, Post 1 ''{}'', Sleep 200000000, Post 2 ''{}''])"
  by (simp add: Fire_def Fire_loop.simps sample_hook_def backoff_def backoffDuration_def
      Millisecond_def)

section \<open>The level gate\<close>

text \<open>
  C2. For severities \<open>s1 < s2\<close> and a gate threshold \<open>s2\<close>, an emit call at \<open>s1\<close> only
  loads the threshold: it makes no Writer call and no pool acquisition, and leaves the
  logger, its queue and its sink as they were, in either mode.
\<close>

theorem emit_below_threshold:
  "severity s1 < severity s2 \<and> threshold lg = s2 \<longrightarrow>
     emit lg s1 r writer_ok = (lg, [LoadThreshold])
     \<and> (\<forall>x. WriterWrite x \<notin> set (snd (emit lg s1 r writer_ok)))
     \<and> PoolAcquire \<notin> set (snd (emit lg s1 r writer_ok))
     \<and> written (fst (emit lg s1 r writer_ok)) = written lg
     \<and> queue (fst (emit lg s1 r writer_ok)) = queue lg"
  by (simp add: emit_def enabled_def)

theorem emit_below_threshold_witness:
  "emit (new_logger INFO False 8 2) DEBUG ''m'' True = (new_logger INFO False 8 2, [LoadThreshold])
   \<and> emit (new_logger INFO True 8 2) DEBUG ''m'' True = (new_logger INFO True 8 2, [LoadThreshold])"
proof -
  have a: "severity DEBUG < severity INFO \<and> threshold (new_logger INFO b 8 2 :: string logger) = INFO"
    for b by (simp add: new_logger_def)
  show ?thesis
    using emit_below_threshold [of DEBUG INFO "new_logger INFO False 8 2" "''m''" True]
      emit_below_threshold [of DEBUG INFO "new_logger INFO True 8 2" "''m''" True] a
    by blast
qed

end
